theory Spec2Isabelle
  imports Complex_Main "HOL-Library.Word"
begin

section \<open>JavaScript values and strings\<close>

text \<open>
  A JavaScript string is a sequence of UTF-16 code units. String literals of the
  source are ASCII and are written with \<open>js\<close>.
\<close>

type_synonym jsstring = "16 word list"

definition js :: "string \<Rightarrow> jsstring" where
  "js s = map of_char s"

text \<open>
  The values a JSON request body can hold, and \<open>undefined\<close> for a property that
  is absent. JSON numbers are finite, so a rational holds each of them exactly.
\<close>

datatype jsval =
    JUndefined
  | JNull
  | JBool bool
  | JNum rat
  | JStr jsstring
  | JArr "jsval list"
  | JObj "(jsstring \<times> jsval) list"

text \<open>ToBoolean: what \<open>!v\<close> and \<open>v || w\<close> test.\<close>

fun truthy :: "jsval \<Rightarrow> bool" where
  "truthy JUndefined = False"
| "truthy JNull = False"
| "truthy (JBool b) = b"
| "truthy (JNum q) = (q \<noteq> 0)"
| "truthy (JStr s) = (s \<noteq> [])"
| "truthy (JArr xs) = True"
| "truthy (JObj kvs) = True"

text \<open>
  What a \<open>catch\<close> clause can receive: a TypeError of the engine, or the error
  object the database driver throws (its SQLSTATE code and its message).
\<close>

datatype js_error =
    TypeError jsstring
  | StoreError string jsstring

fun err_message :: "js_error \<Rightarrow> jsstring" where
  "err_message (TypeError m) = m"
| "err_message (StoreError c m) = m"

text \<open>
  White space of ECMAScript (WhiteSpace and LineTerminator): the code units that
  \<open>String.prototype.trim\<close> strips and that \<open>\s\<close> matches in a regular expression
  without the unicode flag.
\<close>

definition isWhiteSpace :: "16 word \<Rightarrow> bool" where
  "isWhiteSpace c =
     (c = 0x09 \<or> c = 0x0A \<or> c = 0x0B \<or> c = 0x0C \<or> c = 0x0D \<or> c = 0x20 \<or>
      c = 0xA0 \<or> c = 0x1680 \<or> (0x2000 \<le> c \<and> c \<le> 0x200A) \<or>
      c = 0x2028 \<or> c = 0x2029 \<or> c = 0x202F \<or> c = 0x205F \<or> c = 0x3000 \<or>
      c = 0xFEFF)"

definition js_trim :: "jsstring \<Rightarrow> jsstring" where
  "js_trim s = rev (dropWhile isWhiteSpace (rev (dropWhile isWhiteSpace s)))"

text \<open>
  The method call \<open>v.trim()\<close> on a value of a request body. Only a string has the
  method; on every other value the call throws a TypeError (the first argument is
  the receiver's name in the source, which the engine prints in the message).
\<close>

fun call_trim :: "string \<Rightarrow> jsval \<Rightarrow> js_error + jsstring" where
  "call_trim x (JStr s) = Inr (js_trim s)"
| "call_trim x JUndefined =
     Inl (TypeError (js ''Cannot read properties of undefined (reading 'trim')''))"
| "call_trim x JNull =
     Inl (TypeError (js ''Cannot read properties of null (reading 'trim')''))"
| "call_trim x v = Inl (TypeError (js (x @ ''.trim is not a function'')))"

text \<open>Number to decimal string, for the non-negative integers the source prints.\<close>

definition digit_char :: "nat \<Rightarrow> char" where
  "digit_char d = ''0123456789'' ! d"

function decimal :: "nat \<Rightarrow> string" where
  "decimal n = (if n < 10 then [digit_char n] else decimal (n div 10) @ [digit_char (n mod 10)])"
  by pat_completeness auto
termination
  by (relation "measure (\<lambda>n. n)") auto

section \<open>The dispatch stub \<open>sendSMSCommand\<close>\<close>

text \<open>
  The record the stub returns; a property the source leaves out is \<open>None\<close>.
\<close>

record sms_result =
  success :: bool
  details :: jsstring
  messageId :: "jsstring option"
  cost :: "rat option"
  errorCode :: "jsstring option"

text \<open>
  What one call of the stub reads from its environment: the first
  \<open>Math.random()\<close> (a double in [0, 1), held as its exact rational value),
  \<open>Date.now()\<close>, and the base-36 rendering \<open>Math.random().toString(36)\<close> of the
  second draw.
\<close>

record entropy =
  random1 :: rat
  date_now :: nat
  random2_base36 :: jsstring

text \<open>
  The double written \<open>0.1\<close> in the source, exactly. Comparing two doubles is
  comparing their rational values.
\<close>

definition double_0_1 :: rat where
  "double_0_1 = 3602879701896397 / 36028797018963968"

text \<open>\<open>s.substr(start, len)\<close> for non-negative arguments.\<close>

definition substr :: "nat \<Rightarrow> nat \<Rightarrow> jsstring \<Rightarrow> jsstring" where
  "substr start len s = take len (drop start s)"

text \<open>
  The body of the \<open>try\<close> block. It waits on a timer, draws, reads the clock and
  concatenates its string arguments; nothing in it throws, so it always yields
  \<open>Inr\<close>.
\<close>

definition sendSMSCommand_try ::
  "entropy \<Rightarrow> jsstring \<Rightarrow> jsstring \<Rightarrow> jsstring \<Rightarrow> js_error + sms_result" where
  "sendSMSCommand_try e phoneNumber command modelName =
     (if random1 e > double_0_1 then
        Inr \<lparr> success = True,
              details = js ''Command \"'' @ command @ js ''\" sent successfully to '' @
                        modelName @ js '' device'',
              messageId = Some (js ''msg_'' @ js (decimal (date_now e)) @ js ''_'' @
                                substr 2 9 (random2_base36 e)),
              cost = Some (5 / 100),
              errorCode = None \<rparr>
      else
        Inr \<lparr> success = False,
              details = js ''SMS delivery failed - network error'',
              messageId = None,
              cost = None,
              errorCode = Some (js ''NETWORK_ERROR'') \<rparr>)"

text \<open>The function with its \<open>catch\<close> clause.\<close>

definition sendSMSCommand ::
  "entropy \<Rightarrow> jsstring \<Rightarrow> jsstring \<Rightarrow> jsstring \<Rightarrow> sms_result" where
  "sendSMSCommand e phoneNumber command modelName =
     (case sendSMSCommand_try e phoneNumber command modelName of
        Inr r \<Rightarrow> r
      | Inl error \<Rightarrow>
          \<lparr> success = False,
            details = err_message error,
            messageId = None,
            cost = None,
            errorCode = Some (js ''UNKNOWN_ERROR'') \<rparr>)"

section \<open>The store\<close>

text \<open>
  The tables of \<open>initializeDatabase\<close>. The columns \<open>created_at\<close> and
  \<open>updated_at\<close> of \<open>device_models\<close> and \<open>commands\<close>, which no handler below
  reads, are left out. A nullable column is an \<open>option\<close>. \<open>h_sent_at\<close> is the
  timestamp as a count of microseconds; \<open>h_response_data\<close> is the JSON document
  \<open>JSON.stringify(smsResult)\<close>, held as the record it encodes.
\<close>

record device_model =
  dm_id :: int
  dm_name :: jsstring
  dm_description :: "jsstring option"

record command =
  c_id :: int
  c_model_id :: "int option"
  c_command_text :: jsstring
  c_description :: "jsstring option"

record sms_history_row =
  h_id :: int
  h_phone_number :: jsstring
  h_model_id :: "int option"
  h_command_text :: jsstring
  h_status :: "jsstring option"
  h_sent_at :: int
  h_details :: "jsstring option"
  h_notes :: "jsstring option"
  h_response_data :: "sms_result option"

record db =
  device_models :: "device_model list"
  commands :: "command list"
  sms_history :: "sms_history_row list"
  sms_history_id_seq :: int

text \<open>
  The values of Express's parsed query string (\<open>req.query\<close>): strings, arrays and
  objects. An absent parameter is \<open>None\<close> where one is read.
\<close>

datatype qval =
    QStr jsstring
  | QArr "qval list"
  | QObj "(jsstring \<times> qval) list"

text \<open>
  A value handed to \<open>pool.query\<close> as a positional parameter: a value of the
  request body, a value of the query string, a string (one the handler built, or
  a parameter of the route), or a number the handler computed.
\<close>

datatype param =
    PJson jsval
  | PQuery qval
  | PStr jsstring
  | PNum int

text \<open>
  What the database driver and the store do with a parameter is not code of this
  repository; it is taken as a parameter of the model. \<open>to_int\<close> and
  \<open>to_timestamp\<close> are the store's input conversions where the statement needs an
  integer or a timestamp (\<open>None\<close>: the store rejects the statement), \<open>to_text\<close>
  is the text the driver sends, and \<open>ilike\<close> is the store's \<open>ILIKE\<close> on a
  text and a pattern.
\<close>

record driver =
  to_int :: "param \<Rightarrow> int option"
  to_timestamp :: "param \<Rightarrow> int option"
  to_text :: "param \<Rightarrow> jsstring"
  ilike :: "jsstring \<Rightarrow> jsstring \<Rightarrow> bool"

text \<open>
  A number is bound as itself when it fits the store's 64-bit integer and is
  refused otherwise (the only numbers the handlers pass are a \<open>LIMIT\<close> and an
  \<open>OFFSET\<close>); a string is sent unchanged; every other parameter goes through the
  driver.
\<close>

fun bind_int :: "driver \<Rightarrow> param \<Rightarrow> int option" where
  "bind_int D (PNum n) = (if - (2 ^ 63) \<le> n \<and> n < 2 ^ 63 then Some n else None)"
| "bind_int D p = to_int D p"

fun bind_text :: "driver \<Rightarrow> param \<Rightarrow> jsstring" where
  "bind_text D (PStr s) = s"
| "bind_text D (PQuery (QStr s)) = s"
| "bind_text D (PJson (JStr s)) = s"
| "bind_text D p = to_text D p"

definition invalid_integer :: js_error where
  "invalid_integer = StoreError ''22P02'' (js ''invalid input syntax for type integer'')"

definition foreign_key_violation :: js_error where
  "foreign_key_violation =
     StoreError ''23503'' (js ''violates foreign key constraint'')"

text \<open>
  \<open>SELECT name FROM device_models WHERE id = $1\<close>. The first argument is a
  failure of the store that does not depend on the statement (a lost connection,
  say), when there is one.
\<close>

definition select_model_name ::
  "driver \<Rightarrow> js_error option \<Rightarrow> db \<Rightarrow> param \<Rightarrow> js_error + jsstring list" where
  "select_model_name D fault d p =
     (case fault of
        Some e \<Rightarrow> Inl e
      | None \<Rightarrow>
          (case bind_int D p of
             None \<Rightarrow> Inl invalid_integer
           | Some k \<Rightarrow> Inr (map dm_name (filter (\<lambda>m. dm_id m = k) (device_models d)))))"

text \<open>
  What one pass of the loop of \<open>POST /api/sms/send\<close> reads from its environment:
  the draws of the dispatch stub, the store's \<open>NOW()\<close>, and a failure of the store
  on the \<open>INSERT\<close> that the model does not derive from the tables (a lost
  connection, a command text longer than its column), when there is one.
\<close>

record attempt =
  rng :: entropy
  pg_now :: int
  insert_fault :: "js_error option"

text \<open>
  \<open>INSERT INTO sms_history (...) VALUES ($1, $2, $3, $4, NOW(), $5, $6, $7)
  RETURNING *\<close>. The identifier comes from the table's sequence, and
  \<open>model_id\<close> references \<open>device_models(id)\<close>.
\<close>

definition insert_sms_history ::
  "driver \<Rightarrow> attempt \<Rightarrow> db \<Rightarrow> jsstring \<Rightarrow> param \<Rightarrow> jsstring \<Rightarrow> jsstring \<Rightarrow>
   jsstring option \<Rightarrow> jsstring option \<Rightarrow> sms_result \<Rightarrow> js_error + (sms_history_row \<times> db)" where
  "insert_sms_history D a d phone model_param command status dets nts response =
     (case insert_fault a of
        Some e \<Rightarrow> Inl e
      | None \<Rightarrow>
          (case bind_int D model_param of
             None \<Rightarrow> Inl invalid_integer
           | Some k \<Rightarrow>
               if \<not> list_ex (\<lambda>m. dm_id m = k) (device_models d)
               then Inl foreign_key_violation
               else
                 (let row = \<lparr> h_id = sms_history_id_seq d + 1,
                                h_phone_number = phone,
                                h_model_id = Some k,
                                h_command_text = command,
                                h_status = Some status,
                                h_sent_at = pg_now a,
                                h_details = dets,
                                h_notes = nts,
                                h_response_data = Some response \<rparr>
                  in Inr (row, d \<lparr> sms_history := sms_history d @ [row],
                                    sms_history_id_seq := sms_history_id_seq d + 1 \<rparr>))))"

section \<open>The send workflow \<open>POST /api/sms/send\<close>\<close>

record send_body =
  phoneNumbers :: jsval
  modelId :: jsval
  commandText :: jsval
  notes_val :: jsval

record send_result =
  r_phone :: jsstring
  r_status :: jsstring
  r_id :: int
  r_details :: jsstring

record send_error =
  e_phone :: jsstring
  e_error :: jsstring

record summary =
  total :: nat
  sent :: nat
  failed :: nat

record send_ok =
  ok_success :: bool
  ok_message :: string
  ok_summary :: summary
  ok_results :: "send_result list"
  ok_errors :: "send_error list option"

text \<open>One constructor for each \<open>res.status(...).json(...)\<close> of the handler.\<close>

datatype send_response =
    SendBadRequest string
  | SendInvalidPhones "jsval list"
  | SendModelNotFound
  | SendOk send_ok
  | SendInternal js_error

fun send_status :: "send_response \<Rightarrow> nat" where
  "send_status (SendBadRequest m) = 400"
| "send_status (SendInvalidPhones ps) = 400"
| "send_status SendModelNotFound = 404"
| "send_status (SendOk b) = 200"
| "send_status (SendInternal e) = 500"

text \<open>
  What a request leaves behind: the response, the store, and the calls of the
  dispatch stub it made (phone number, command, model name), in order.
\<close>

record send_outcome =
  response :: send_response
  store :: db
  dispatched :: "(jsstring \<times> jsstring \<times> jsstring) list"

record send_env =
  lookup_fault :: "js_error option"
  attempts :: "nat \<Rightarrow> attempt"

fun isArray :: "jsval \<Rightarrow> bool" where
  "isArray (JArr xs) = True"
| "isArray v = False"

fun elements :: "jsval \<Rightarrow> jsval list" where
  "elements (JArr xs) = xs"
| "elements v = []"

fun str_of :: "jsval \<Rightarrow> jsstring" where
  "str_of (JStr s) = s"
| "str_of v = []"

text \<open>
  \<open>/^[\d\+\-\(\)\s]{10,20}$/.test(s)\<close>: ten to twenty code units, each a digit,
  \<open>+\<close>, \<open>-\<close>, a parenthesis or white space.
\<close>

definition phone_char :: "16 word \<Rightarrow> bool" where
  "phone_char c =
     ((0x30 \<le> c \<and> c \<le> 0x39) \<or> c = 0x2B \<or> c = 0x2D \<or> c = 0x28 \<or> c = 0x29 \<or>
      isWhiteSpace c)"

definition phoneRegex_test :: "jsstring \<Rightarrow> bool" where
  "phoneRegex_test s = (10 \<le> length s \<and> length s \<le> 20 \<and> list_all phone_char s)"

text \<open>
  \<open>phoneNumbers.filter(phone => !phoneRegex.test(phone.trim()))\<close>: the callback
  runs on the elements in order, and a throw of \<open>phone.trim()\<close> ends the filter.
\<close>

fun invalid_phones :: "jsval list \<Rightarrow> js_error + jsval list" where
  "invalid_phones [] = Inr []"
| "invalid_phones (phone # rest) =
     (case call_trim ''phone'' phone of
        Inl e \<Rightarrow> Inl e
      | Inr t \<Rightarrow>
          (case invalid_phones rest of
             Inl e \<Rightarrow> Inl e
           | Inr bad \<Rightarrow> Inr (if \<not> phoneRegex_test t then phone # bad else bad)))"

text \<open>The variables of the loop, and the error that left it, when one did.\<close>

record loop_state =
  ls_db :: db
  ls_results :: "send_result list"
  ls_errors :: "send_error list"
  ls_dispatched :: "(jsstring \<times> jsstring \<times> jsstring) list"
  ls_thrown :: "js_error option"

definition status_text :: "sms_result \<Rightarrow> jsstring" where
  "status_text r = (if success r then js ''sent'' else js ''failed'')"

text \<open>
  The body of the loop for one element. When \<open>phone.trim()\<close> throws in the
  \<open>try\<close> block, the \<open>catch\<close> clause calls it again, and that throw leaves the
  loop. Every other error of the \<open>try\<close> block becomes an entry of \<open>errors\<close>.
\<close>

definition send_step ::
  "driver \<Rightarrow> attempt \<Rightarrow> jsval \<Rightarrow> jsstring \<Rightarrow> jsval \<Rightarrow> jsstring \<Rightarrow> jsval \<Rightarrow>
   loop_state \<Rightarrow> loop_state" where
  "send_step D a model_id command nts modelName phone st =
     (case call_trim ''phone'' phone of
        Inl e \<Rightarrow> st \<lparr> ls_thrown := Some e \<rparr>
      | Inr cleanPhone \<Rightarrow>
          (let smsResult = sendSMSCommand (rng a) cleanPhone command modelName;
               st1 = st \<lparr> ls_dispatched :=
                             ls_dispatched st @ [(cleanPhone, command, modelName)] \<rparr>
           in case insert_sms_history D a (ls_db st1) cleanPhone (PJson model_id)
                     (js_trim command) (status_text smsResult)
                     (if details smsResult = [] then None else Some (details smsResult))
                     (if truthy nts then Some (bind_text D (PJson nts)) else None)
                     smsResult of
                Inl error \<Rightarrow>
                  st1 \<lparr> ls_errors := ls_errors st1 @
                          [\<lparr> e_phone = cleanPhone, e_error = err_message error \<rparr>] \<rparr>
              | Inr (row, d') \<Rightarrow>
                  st1 \<lparr> ls_db := d',
                        ls_results := ls_results st1 @
                          [\<lparr> r_phone = cleanPhone,
                             r_status = status_text smsResult,
                             r_id = h_id row,
                             r_details = details smsResult \<rparr>] \<rparr>))"

fun send_loop ::
  "driver \<Rightarrow> (nat \<Rightarrow> attempt) \<Rightarrow> jsval \<Rightarrow> jsstring \<Rightarrow> jsval \<Rightarrow> jsstring \<Rightarrow> nat \<Rightarrow>
   jsval list \<Rightarrow> loop_state \<Rightarrow> loop_state" where
  "send_loop D A model_id command nts modelName i [] st = st"
| "send_loop D A model_id command nts modelName i (phone # rest) st =
     (let st' = send_step D (A i) model_id command nts modelName phone st
      in if ls_thrown st' \<noteq> None then st'
         else send_loop D A model_id command nts modelName (Suc i) rest st')"

definition send_report :: "nat \<Rightarrow> loop_state \<Rightarrow> send_ok" where
  "send_report n st =
     (let successCount = length (filter (\<lambda>r. r_status r = js ''sent'') (ls_results st));
          failCount = length (filter (\<lambda>r. r_status r = js ''failed'') (ls_results st)) +
                      length (ls_errors st)
      in \<lparr> ok_success = (successCount > 0),
            ok_message = ''SMS processing completed. Sent: '' @ decimal successCount @
                         '', Failed: '' @ decimal failCount,
            ok_summary = \<lparr> total = n, sent = successCount, failed = failCount \<rparr>,
            ok_results = ls_results st,
            ok_errors = (if length (ls_errors st) > 0 then Some (ls_errors st) else None) \<rparr>)"

definition sms_send :: "driver \<Rightarrow> send_env \<Rightarrow> db \<Rightarrow> send_body \<Rightarrow> send_outcome" where
  "sms_send D E d body =
     (if \<not> truthy (phoneNumbers body) \<or> \<not> isArray (phoneNumbers body) \<or>
         length (elements (phoneNumbers body)) = 0
      then \<lparr> response = SendBadRequest ''Phone numbers array is required'',
             store = d, dispatched = [] \<rparr>
      else if \<not> truthy (modelId body) \<or> \<not> truthy (commandText body)
      then \<lparr> response = SendBadRequest ''Model ID and command text are required'',
             store = d, dispatched = [] \<rparr>
      else
        (case call_trim ''commandText'' (commandText body) of
           Inl e \<Rightarrow> \<lparr> response = SendInternal e, store = d, dispatched = [] \<rparr>
         | Inr trimmed \<Rightarrow>
             if length trimmed = 0
             then \<lparr> response = SendBadRequest ''Model ID and command text are required'',
                    store = d, dispatched = [] \<rparr>
             else
               (case invalid_phones (elements (phoneNumbers body)) of
                  Inl e \<Rightarrow> \<lparr> response = SendInternal e, store = d, dispatched = [] \<rparr>
                | Inr invalidPhones \<Rightarrow>
                    if length invalidPhones > 0
                    then \<lparr> response = SendInvalidPhones invalidPhones,
                           store = d, dispatched = [] \<rparr>
                    else
                      (case select_model_name D (lookup_fault E) d (PJson (modelId body)) of
                         Inl e \<Rightarrow> \<lparr> response = SendInternal e, store = d, dispatched = [] \<rparr>
                       | Inr [] \<Rightarrow>
                           \<lparr> response = SendModelNotFound, store = d, dispatched = [] \<rparr>
                       | Inr (modelName # others) \<Rightarrow>
                           (let st = send_loop D (attempts E) (modelId body)
                                       (str_of (commandText body)) (notes_val body) modelName 0
                                       (elements (phoneNumbers body))
                                       \<lparr> ls_db = d, ls_results = [], ls_errors = [],
                                         ls_dispatched = [], ls_thrown = None \<rparr>
                            in case ls_thrown st of
                                 Some e \<Rightarrow>
                                   \<lparr> response = SendInternal e, store = ls_db st,
                                     dispatched = ls_dispatched st \<rparr>
                               | None \<Rightarrow>
                                   \<lparr> response =
                                       SendOk (send_report
                                                 (length (elements (phoneNumbers body))) st),
                                     store = ls_db st,
                                     dispatched = ls_dispatched st \<rparr>)))))"

section \<open>Notions for stating the properties of the send workflow\<close>

text \<open>
  These definitions are not code of the repository: they name what the
  properties below speak about.
\<close>

fun is_string :: "jsval \<Rightarrow> bool" where
  "is_string (JStr s) = True"
| "is_string v = False"

text \<open>
  A phone number is syntactically valid when it is a string that passes the
  pattern of the handler after trimming.
\<close>

definition valid_phone :: "jsval \<Rightarrow> bool" where
  "valid_phone p = (is_string p \<and> phoneRegex_test (js_trim (str_of p)))"

text \<open>
  A request that reaches the validation of the phone numbers: \<open>phoneNumbers\<close> is
  a non-empty array of strings, \<open>modelId\<close> is truthy, and \<open>commandText\<close> is a
  string that is not blank.
\<close>

definition well_formed :: "send_body \<Rightarrow> bool" where
  "well_formed body =
     (isArray (phoneNumbers body) \<and> elements (phoneNumbers body) \<noteq> [] \<and>
      list_all is_string (elements (phoneNumbers body)) \<and>
      truthy (modelId body) \<and>
      is_string (commandText body) \<and> js_trim (str_of (commandText body)) \<noteq> [])"

text \<open>
  The model of the request resolves: the lookup does not fail, the store accepts
  \<open>modelId\<close> as an integer, and a row of \<open>device_models\<close> has it as its id.
\<close>

definition model_resolves :: "driver \<Rightarrow> send_env \<Rightarrow> db \<Rightarrow> send_body \<Rightarrow> bool" where
  "model_resolves D E d body =
     (lookup_fault E = None \<and>
      (case bind_int D (PJson (modelId body)) of
         None \<Rightarrow> False
       | Some k \<Rightarrow> list_ex (\<lambda>m. dm_id m = k) (device_models d)))"

text \<open>
  The row that the loop stores for one phone number, when the sequence of the
  table stands at \<open>seq\<close> and the model has the id \<open>k\<close>.
\<close>

definition stored_row ::
  "driver \<Rightarrow> attempt \<Rightarrow> int \<Rightarrow> int \<Rightarrow> jsstring \<Rightarrow> jsval \<Rightarrow> jsstring \<Rightarrow> jsval \<Rightarrow> sms_history_row" where
  "stored_row D a seq k command nts modelName phone =
     (let smsResult = sendSMSCommand (rng a) (js_trim (str_of phone)) command modelName
      in \<lparr> h_id = seq + 1,
            h_phone_number = js_trim (str_of phone),
            h_model_id = Some k,
            h_command_text = js_trim command,
            h_status = Some (status_text smsResult),
            h_sent_at = pg_now a,
            h_details = (if details smsResult = [] then None else Some (details smsResult)),
            h_notes = (if truthy nts then Some (bind_text D (PJson nts)) else None),
            h_response_data = Some smsResult \<rparr>)"

text \<open>
  The rows a batch stores, and the entries of \<open>errors\<close> it reports: one row for
  each number whose \<open>INSERT\<close> the store accepts, one entry of \<open>errors\<close> for each
  number whose \<open>INSERT\<close> fails. \<open>i\<close> is the position of the first number.
\<close>

fun stored_rows ::
  "driver \<Rightarrow> (nat \<Rightarrow> attempt) \<Rightarrow> int \<Rightarrow> int \<Rightarrow> jsstring \<Rightarrow> jsval \<Rightarrow> jsstring \<Rightarrow> nat \<Rightarrow>
   jsval list \<Rightarrow> sms_history_row list" where
  "stored_rows D A seq k command nts modelName i [] = []"
| "stored_rows D A seq k command nts modelName i (phone # rest) =
     (if insert_fault (A i) = None
      then stored_row D (A i) seq k command nts modelName phone #
           stored_rows D A (seq + 1) k command nts modelName (Suc i) rest
      else stored_rows D A seq k command nts modelName (Suc i) rest)"

fun reported_errors :: "(nat \<Rightarrow> attempt) \<Rightarrow> nat \<Rightarrow> jsval list \<Rightarrow> send_error list" where
  "reported_errors A i [] = []"
| "reported_errors A i (phone # rest) =
     (case insert_fault (A i) of
        None \<Rightarrow> reported_errors A (Suc i) rest
      | Some e \<Rightarrow> \<lparr> e_phone = js_trim (str_of phone), e_error = err_message e \<rparr> #
                 reported_errors A (Suc i) rest)"

text \<open>
  The entry of \<open>results\<close> that belongs to a stored row.
\<close>

definition result_entry :: "sms_history_row \<Rightarrow> send_result" where
  "result_entry row =
     \<lparr> r_phone = h_phone_number row,
       r_status = (case h_status row of Some s \<Rightarrow> s | None \<Rightarrow> []),
       r_id = h_id row,
       r_details = (case h_response_data row of Some r \<Rightarrow> details r | None \<Rightarrow> []) \<rparr>"

section \<open>Example data\<close>

text \<open>
  A driver for the examples: integers and timestamps are read from decimal digits,
  and \<open>ILIKE\<close> on a pattern \<open>%s%\<close> is containment of \<open>s\<close>.
\<close>

fun parse_digits :: "nat \<Rightarrow> jsstring \<Rightarrow> nat option" where
  "parse_digits acc [] = Some acc"
| "parse_digits acc (c # cs) =
     (if 0x30 \<le> c \<and> c \<le> 0x39 then parse_digits (10 * acc + (unat c - 48)) cs else None)"

definition parse_decimal :: "jsstring \<Rightarrow> int option" where
  "parse_decimal s = (if s = [] then None else map_option int (parse_digits 0 s))"

fun contains :: "jsstring \<Rightarrow> jsstring \<Rightarrow> bool" where
  "contains needle [] = (needle = [])"
| "contains needle (c # cs) = (take (length needle) (c # cs) = needle \<or> contains needle cs)"

definition demo_driver :: driver where
  "demo_driver =
     \<lparr> to_int = (\<lambda>p. case p of
                      PJson (JNum q) \<Rightarrow> if of_int \<lfloor>q\<rfloor> = q then Some \<lfloor>q\<rfloor> else None
                    | PJson (JStr s) \<Rightarrow> parse_decimal s
                    | PQuery (QStr s) \<Rightarrow> parse_decimal s
                    | PStr s \<Rightarrow> parse_decimal s
                    | _ \<Rightarrow> None),
       to_timestamp = (\<lambda>p. case p of PQuery (QStr s) \<Rightarrow> parse_decimal s | _ \<Rightarrow> None),
       to_text = (\<lambda>p. []),
       ilike = (\<lambda>t pat. contains (butlast (tl pat)) t) \<rparr>"

text \<open>
  A store with the model TK103 and one of its commands, and no history.
\<close>

definition demo_db :: db where
  "demo_db =
     \<lparr> device_models = [\<lparr> dm_id = 1, dm_name = js ''TK103'', dm_description = None \<rparr>],
       commands = [\<lparr> c_id = 1, c_model_id = Some 1, c_command_text = js ''STATUS123456'',
                     c_description = None \<rparr>],
       sms_history = [],
       sms_history_id_seq = 0 \<rparr>"

text \<open>
  Two environments: in \<open>calm\<close> the store accepts every statement, in
  \<open>second_insert_fails\<close> it loses the connection on the second \<open>INSERT\<close>.
\<close>

definition calm :: send_env where
  "calm =
     \<lparr> lookup_fault = None,
       attempts = (\<lambda>i. \<lparr> rng = \<lparr> random1 = 1 / 2, date_now = 1700000000000,
                                  random2_base36 = js ''0.4fzyo82mvyr'' \<rparr>,
                          pg_now = 1000 + int i,
                          insert_fault = None \<rparr>) \<rparr>"

definition second_insert_fails :: send_env where
  "second_insert_fails =
     \<lparr> lookup_fault = None,
       attempts = (\<lambda>i. \<lparr> rng = \<lparr> random1 = 1 / 2, date_now = 1700000000000,
                                  random2_base36 = js ''0.4fzyo82mvyr'' \<rparr>,
                          pg_now = 1000 + int i,
                          insert_fault =
                            (if i = 1 then Some (StoreError ''57P01'' (js ''terminating connection''))
                             else None) \<rparr>) \<rparr>"

text \<open>
  Three requests: three valid numbers; a valid number and the string \<open>abc\<close>; a
  valid number and a JSON number.
\<close>

definition three_numbers :: send_body where
  "three_numbers =
     \<lparr> phoneNumbers = JArr [JStr (js ''+5511999999999''), JStr (js '' +5511888888888 ''),
                            JStr (js ''(11) 97777-7777'')],
       modelId = JNum 1,
       commandText = JStr (js ''STATUS123456''),
       notes_val = JUndefined \<rparr>"

definition mixed_batch :: send_body where
  "mixed_batch =
     \<lparr> phoneNumbers = JArr [JStr (js ''+5511999999999''), JStr (js ''abc'')],
       modelId = JNum 1,
       commandText = JStr (js ''STATUS123456''),
       notes_val = JUndefined \<rparr>"

text \<open>
  Two requests with the number \<open>abc\<close>, which fails the pattern: one without a
  model id, and one with a second element that is a JSON number.
\<close>

definition invalid_without_model :: send_body where
  "invalid_without_model =
     \<lparr> phoneNumbers = JArr [JStr (js ''abc'')],
       modelId = JUndefined,
       commandText = JStr (js ''STATUS123456''),
       notes_val = JUndefined \<rparr>"

definition invalid_and_number :: send_body where
  "invalid_and_number =
     \<lparr> phoneNumbers = JArr [JStr (js ''abc''), JNum 5],
       modelId = JNum 1,
       commandText = JStr (js ''STATUS123456''),
       notes_val = JUndefined \<rparr>"

definition number_in_batch :: send_body where
  "number_in_batch =
     \<lparr> phoneNumbers = JArr [JStr (js ''+5511999999999''), JNum 5511888888888],
       modelId = JNum 1,
       commandText = JStr (js ''STATUS123456''),
       notes_val = JUndefined \<rparr>"

section \<open>Deleting a model \<open>DELETE /api/models/:id\<close>\<close>

text \<open>
  \<open>SELECT COUNT(*) FROM commands WHERE model_id = $1\<close>, read with \<open>parseInt\<close>.
\<close>

definition count_commands :: "driver \<Rightarrow> db \<Rightarrow> param \<Rightarrow> js_error + nat" where
  "count_commands D d p =
     (case bind_int D p of
        None \<Rightarrow> Inl invalid_integer
      | Some k \<Rightarrow> Inr (length (filter (\<lambda>c. c_model_id c = Some k) (commands d))))"

text \<open>
  \<open>DELETE FROM device_models WHERE id = $1 RETURNING *\<close>, under the constraints of
  \<open>initializeDatabase\<close>: \<open>commands.model_id\<close> references the table with
  \<open>ON DELETE CASCADE\<close>, so the commands of a deleted model go with it;
  \<open>sms_history.model_id\<close> references it with no \<open>ON DELETE\<close> clause, which in SQL
  is \<open>NO ACTION\<close>: the store refuses to delete a model that a history row still
  references (SQLSTATE 23503).
\<close>

definition delete_device_model ::
  "driver \<Rightarrow> db \<Rightarrow> param \<Rightarrow> js_error + (device_model list \<times> db)" where
  "delete_device_model D d p =
     (case bind_int D p of
        None \<Rightarrow> Inl invalid_integer
      | Some k \<Rightarrow>
          (let doomed = filter (\<lambda>m. dm_id m = k) (device_models d)
           in if doomed = [] then Inr ([], d)
              else if list_ex (\<lambda>h. h_model_id h = Some k) (sms_history d)
              then Inl foreign_key_violation
              else Inr (doomed,
                        d \<lparr> device_models := filter (\<lambda>m. dm_id m \<noteq> k) (device_models d),
                            commands := filter (\<lambda>c. c_model_id c \<noteq> Some k) (commands d) \<rparr>)))"

text \<open>
  The responses of the handler: 409 with its two texts, 404, 200 with the deleted
  row, and 500.
\<close>

datatype delete_response =
    DeleteConflict string string
  | DeleteNotFound
  | DeleteOk device_model
  | DeleteInternal

fun delete_status :: "delete_response \<Rightarrow> nat" where
  "delete_status (DeleteConflict e s) = 409"
| "delete_status DeleteNotFound = 404"
| "delete_status (DeleteOk m) = 200"
| "delete_status DeleteInternal = 500"

text \<open>
  The handler. \<open>req.params.id\<close> is a string. Failures of the store that do not
  depend on the statement are left out of this handler's model.
\<close>

definition delete_model :: "driver \<Rightarrow> db \<Rightarrow> jsstring \<Rightarrow> delete_response \<times> db" where
  "delete_model D d ident =
     (case count_commands D d (PStr ident) of
        Inl e \<Rightarrow> (DeleteInternal, d)
      | Inr commandCount \<Rightarrow>
          if commandCount > 0
          then (DeleteConflict
                  (''Cannot delete model. It has '' @ decimal commandCount @
                   '' associated commands.'')
                  ''Delete all commands first or use force delete.'', d)
          else
            (case delete_device_model D d (PStr ident) of
               Inl e \<Rightarrow> (DeleteInternal, d)
             | Inr (rows, d') \<Rightarrow>
                 (case rows of
                    [] \<Rightarrow> (DeleteNotFound, d')
                  | m # ms \<Rightarrow> (DeleteOk m, d'))))"

section \<open>The history query \<open>GET /api/sms/history\<close>\<close>

text \<open>
  \<open>Array.prototype.join\<close>, on strings and on SQL text.
\<close>

fun join :: "'a list \<Rightarrow> 'a list list \<Rightarrow> 'a list" where
  "join sep [] = []"
| "join sep [x] = x"
| "join sep (x # y # ys) = x @ sep @ join sep (y # ys)"

text \<open>ToBoolean on the values of a query string.\<close>

fun q_truthy :: "qval \<Rightarrow> bool" where
  "q_truthy (QStr s) = (s \<noteq> [])"
| "q_truthy (QArr xs) = True"
| "q_truthy (QObj kvs) = True"

text \<open>
  The string conversion of a template literal, on the values of a query string.
  An array converts as \<open>join(',')\<close> of its elements' conversions. An object
  converts with \<open>Object.prototype.toString\<close>, unless the query gave it a key
  \<open>toString\<close> of its own (\<open>?search[toString]=x\<close>, which the query parser of
  Express 4 keeps): that value is not a function, \<open>valueOf\<close> does not yield a
  primitive either, and the conversion throws a TypeError. \<open>first_error\<close> runs
  the conversions of the elements in order and stops at the first throw.
\<close>

definition cannot_convert :: js_error where
  "cannot_convert = TypeError (js ''Cannot convert object to primitive value'')"

fun first_error :: "(js_error + 'a) list \<Rightarrow> js_error + 'a list" where
  "first_error [] = Inr []"
| "first_error (r # rs) =
     (case r of
        Inl e \<Rightarrow> Inl e
      | Inr x \<Rightarrow> (case first_error rs of Inl e \<Rightarrow> Inl e | Inr xs \<Rightarrow> Inr (x # xs)))"

fun qval_to_string :: "qval \<Rightarrow> js_error + jsstring" where
  "qval_to_string (QStr s) = Inr s"
| "qval_to_string (QArr xs) =
     (case first_error (map qval_to_string xs) of
        Inl e \<Rightarrow> Inl e
      | Inr ss \<Rightarrow> Inr (join (js '','') ss))"
| "qval_to_string (QObj kvs) =
     (if List.member (map fst kvs) (js ''toString'') then Inl cannot_convert
      else Inr (js ''[object Object]''))"

text \<open>
  The six filters of \<open>req.query\<close>; \<open>None\<close> is an absent parameter. \<open>page\<close> and
  \<open>limit\<close> are used as numbers only: the model holds the integer a decimal
  parameter denotes, and computes with it exactly. JavaScript's arithmetic on
  integers is exact below \<open>2^53\<close>; the model does not cover parameters that are
  not decimal integers, nor the rounding of \<open>parseInt(page)\<close>, of
  \<open>parseInt(limit)\<close> and of the offset where one of them is \<open>2^53\<close> or more in
  magnitude.
\<close>

record filters =
  f_status :: "qval option"
  f_modelId :: "qval option"
  f_phoneNumber :: "qval option"
  f_dateFrom :: "qval option"
  f_dateTo :: "qval option"
  f_search :: "qval option"

record history_query =
  q_page :: "int option"
  q_limit :: "int option"
  q_filters :: filters

text \<open>
  An entry of the array \<open>conditions\<close>, with the number of its placeholder, and
  the SQL text the source builds for it.
\<close>

datatype clause =
    StatusEq nat
  | ModelIdEq nat
  | PhoneILike nat
  | SentAtGe nat
  | SentAtLe nat
  | SearchILike nat

fun clause_sql :: "clause \<Rightarrow> string" where
  "clause_sql (StatusEq n) = ''h.status = $'' @ decimal n"
| "clause_sql (ModelIdEq n) = ''h.model_id = $'' @ decimal n"
| "clause_sql (PhoneILike n) = ''h.phone_number ILIKE $'' @ decimal n"
| "clause_sql (SentAtGe n) = ''h.sent_at >= $'' @ decimal n"
| "clause_sql (SentAtLe n) = ''h.sent_at <= $'' @ decimal n"
| "clause_sql (SearchILike n) =
     ''(h.command_text ILIKE $'' @ decimal n @ '' OR h.notes ILIKE $'' @ decimal n @
     '' OR m.name ILIKE $'' @ decimal n @ '')''"

text \<open>
  The three variables \<open>paramCount\<close>, \<open>conditions\<close>, \<open>params\<close>, and one
  \<open>if (value) { paramCount++; conditions.push(...); params.push(...) }\<close> block.
  The argument of \<open>params.push\<close> is the value itself (\<open>raw_value\<close>) or the
  template literal \<open>`%${value}%`\<close> (\<open>like_pattern\<close>), whose conversion can throw;
  a throw leaves the handler's \<open>try\<close> block.
\<close>

record builder =
  paramCount :: nat
  conditions :: "clause list"
  params :: "param list"

definition raw_value :: "qval \<Rightarrow> js_error + param" where
  "raw_value v = Inr (PQuery v)"

definition like_pattern :: "qval \<Rightarrow> js_error + param" where
  "like_pattern v =
     (case qval_to_string v of
        Inl e \<Rightarrow> Inl e
      | Inr s \<Rightarrow> Inr (PStr (js ''%'' @ s @ js ''%'')))"

definition add_condition ::
  "(nat \<Rightarrow> clause) \<Rightarrow> (qval \<Rightarrow> js_error + param) \<Rightarrow> qval option \<Rightarrow> builder \<Rightarrow>
   js_error + builder" where
  "add_condition mk val v b =
     (case v of
        None \<Rightarrow> Inr b
      | Some x \<Rightarrow>
          if q_truthy x
          then (case val x of
                  Inl e \<Rightarrow> Inl e
                | Inr p \<Rightarrow>
                    Inr \<lparr> paramCount = paramCount b + 1,
                          conditions = conditions b @ [mk (paramCount b + 1)],
                          params = params b @ [p] \<rparr>)
          else Inr b)"

text \<open>A statement runs only when the statements before it have not thrown.\<close>

definition and_then :: "js_error + 'a \<Rightarrow> ('a \<Rightarrow> js_error + 'b) \<Rightarrow> js_error + 'b" where
  "and_then r g = (case r of Inl e \<Rightarrow> Inl e | Inr x \<Rightarrow> g x)"

text \<open>
  The six blocks, in the order of the source.
\<close>

definition build_conditions :: "filters \<Rightarrow> js_error + builder" where
  "build_conditions f =
     and_then
       (and_then
          (and_then
             (and_then
                (and_then
                   (add_condition StatusEq raw_value (f_status f)
                      \<lparr> paramCount = 0, conditions = [], params = [] \<rparr>)
                   (add_condition ModelIdEq raw_value (f_modelId f)))
                (add_condition PhoneILike like_pattern (f_phoneNumber f)))
             (add_condition SentAtGe raw_value (f_dateFrom f)))
          (add_condition SentAtLe raw_value (f_dateTo f)))
       (add_condition SearchILike like_pattern (f_search f))"

definition whereClause :: "builder \<Rightarrow> string" where
  "whereClause b =
     (if length (conditions b) > 0
      then ''WHERE '' @ join '' AND '' (map clause_sql (conditions b))
      else [])"

text \<open>
  What the store does with the statement. \<open>placeholder\<close> is the parameter a
  clause refers to; \<open>left_join\<close> is
  \<open>FROM sms_history h LEFT JOIN device_models m ON h.model_id = m.id\<close>.
\<close>

fun placeholder :: "clause \<Rightarrow> nat" where
  "placeholder (StatusEq n) = n"
| "placeholder (ModelIdEq n) = n"
| "placeholder (PhoneILike n) = n"
| "placeholder (SentAtGe n) = n"
| "placeholder (SentAtLe n) = n"
| "placeholder (SearchILike n) = n"

definition left_join :: "db \<Rightarrow> (sms_history_row \<times> device_model option) list" where
  "left_join d =
     concat (map (\<lambda>h. case filter (\<lambda>m. Some (dm_id m) = h_model_id h) (device_models d) of
                          [] \<Rightarrow> [(h, None)]
                        | ms \<Rightarrow> map (\<lambda>m. (h, Some m)) ms)
                 (sms_history d))"

text \<open>
  A clause with its parameter converted to the type of the column. A conversion
  that fails makes the store reject the statement.
\<close>

datatype bound =
    BStatus jsstring
  | BModelId int
  | BPhone jsstring
  | BFrom int
  | BTo int
  | BSearch jsstring

fun bind_clause :: "driver \<Rightarrow> param list \<Rightarrow> clause \<Rightarrow> bound option" where
  "bind_clause D ps (StatusEq n) = Some (BStatus (bind_text D (ps ! (n - 1))))"
| "bind_clause D ps (ModelIdEq n) = map_option BModelId (bind_int D (ps ! (n - 1)))"
| "bind_clause D ps (PhoneILike n) = Some (BPhone (bind_text D (ps ! (n - 1))))"
| "bind_clause D ps (SentAtGe n) = map_option BFrom (to_timestamp D (ps ! (n - 1)))"
| "bind_clause D ps (SentAtLe n) = map_option BTo (to_timestamp D (ps ! (n - 1)))"
| "bind_clause D ps (SearchILike n) = Some (BSearch (bind_text D (ps ! (n - 1))))"

fun bind_all :: "driver \<Rightarrow> param list \<Rightarrow> clause list \<Rightarrow> bound list option" where
  "bind_all D ps [] = Some []"
| "bind_all D ps (c # cs) =
     (case bind_clause D ps c of
        None \<Rightarrow> None
      | Some b \<Rightarrow> (case bind_all D ps cs of None \<Rightarrow> None | Some bs \<Rightarrow> Some (b # bs)))"

text \<open>
  The clause on a row of the join. A comparison with \<open>NULL\<close> is not true.
\<close>

fun satisfies :: "driver \<Rightarrow> sms_history_row \<times> device_model option \<Rightarrow> bound \<Rightarrow> bool" where
  "satisfies D (h, m) (BStatus s) = (h_status h = Some s)"
| "satisfies D (h, m) (BModelId k) = (h_model_id h = Some k)"
| "satisfies D (h, m) (BPhone pat) = ilike D (h_phone_number h) pat"
| "satisfies D (h, m) (BFrom t) = (h_sent_at h \<ge> t)"
| "satisfies D (h, m) (BTo t) = (h_sent_at h \<le> t)"
| "satisfies D (h, m) (BSearch pat) =
     (ilike D (h_command_text h) pat \<or>
      (case h_notes h of None \<Rightarrow> False | Some n \<Rightarrow> ilike D n pat) \<or>
      (case m of None \<Rightarrow> False | Some x \<Rightarrow> ilike D (dm_name x) pat))"

text \<open>
  The store rejects a statement whose parameter list does not fit its
  placeholders: every placeholder needs a parameter, and every parameter a
  placeholder.
\<close>

definition parameters_fit :: "nat list \<Rightarrow> param list \<Rightarrow> bool" where
  "parameters_fit used ps = (list_all (\<lambda>n. 1 \<le> n \<and> n \<le> length ps) used \<and>
                             list_all (\<lambda>n. n \<in> set used) [1..<Suc (length ps)])"

definition protocol_violation :: js_error where
  "protocol_violation = StoreError ''08P01'' (js ''bind message supplies the wrong number of parameters'')"

definition invalid_parameter :: js_error where
  "invalid_parameter = StoreError ''22P02'' (js ''invalid input syntax'')"

definition select_matching ::
  "driver \<Rightarrow> db \<Rightarrow> clause list \<Rightarrow> param list \<Rightarrow>
   js_error + (sms_history_row \<times> device_model option) list" where
  "select_matching D d cs ps =
     (case bind_all D ps cs of
        None \<Rightarrow> Inl invalid_parameter
      | Some bs \<Rightarrow> Inr (filter (\<lambda>x. list_all (satisfies D x) bs) (left_join d)))"

text \<open>
  The columns of a returned row: \<open>h.*\<close>, \<open>m.name as model_name\<close> and the
  \<open>CASE\<close> expression \<open>status_icon\<close> (its four symbols are not ASCII and are
  named here).
\<close>

datatype status_icon = Sent_icon | Failed_icon | Pending_icon | Unknown_icon

definition icon_of :: "jsstring option \<Rightarrow> status_icon" where
  "icon_of s =
     (if s = Some (js ''sent'') then Sent_icon
      else if s = Some (js ''failed'') then Failed_icon
      else if s = Some (js ''pending'') then Pending_icon
      else Unknown_icon)"

record history_item =
  hi_row :: sms_history_row
  hi_model_name :: "jsstring option"
  hi_status_icon :: status_icon

definition item_of :: "sms_history_row \<times> device_model option \<Rightarrow> history_item" where
  "item_of x = \<lparr> hi_row = fst x, hi_model_name = map_option dm_name (snd x),
                 hi_status_icon = icon_of (h_status (fst x)) \<rparr>"

text \<open>
  The row query, \<open>... ORDER BY h.sent_at DESC LIMIT $l OFFSET $o\<close>, and the count
  query \<open>SELECT COUNT(*) ...\<close> with the same \<open>whereClause\<close>. SQL leaves the order
  of rows with equal \<open>sent_at\<close> open; the model keeps them in table order.
\<close>

definition select_history ::
  "driver \<Rightarrow> db \<Rightarrow> clause list \<Rightarrow> nat \<Rightarrow> nat \<Rightarrow> param list \<Rightarrow> js_error + history_item list" where
  "select_history D d cs limitParam offsetParam ps =
     (if \<not> parameters_fit (map placeholder cs @ [limitParam, offsetParam]) ps
      then Inl protocol_violation
      else
        (case select_matching D d cs ps of
           Inl e \<Rightarrow> Inl e
         | Inr xs \<Rightarrow>
             (case (bind_int D (ps ! (limitParam - 1)), bind_int D (ps ! (offsetParam - 1))) of
                (Some l, Some off) \<Rightarrow>
                  if l < 0 then Inl (StoreError ''2201W'' (js ''LIMIT must not be negative''))
                  else if off < 0 then Inl (StoreError ''2201X'' (js ''OFFSET must not be negative''))
                  else Inr (map item_of
                              (take (nat l) (drop (nat off)
                                 (sort_key (\<lambda>x. - h_sent_at (fst x)) xs))))
              | _ \<Rightarrow> Inl invalid_parameter)))"

definition count_history ::
  "driver \<Rightarrow> db \<Rightarrow> clause list \<Rightarrow> param list \<Rightarrow> js_error + nat" where
  "count_history D d cs ps =
     (if \<not> parameters_fit (map placeholder cs) ps
      then Inl protocol_violation
      else
        (case select_matching D d cs ps of
           Inl e \<Rightarrow> Inl e
         | Inr xs \<Rightarrow> Inr (length xs)))"

record pagination =
  pg_page :: int
  pg_limit :: int
  pg_total :: nat
  pg_pages :: "int option"
  hasNext :: bool
  hasPrev :: bool

record history_ok =
  hk_data :: "history_item list"
  hk_pagination :: pagination
  hk_filters :: filters

datatype history_response =
    HistoryOk history_ok
  | HistoryInternal

text \<open>
  The handler. A throw while the predicate is built and an error of the store
  both end in the \<open>catch\<close> clause; the store refuses a limit or an offset
  outside its 64-bit integer. \<open>Math.ceil(total / limit)\<close> is not a finite number
  when \<open>limit\<close> is 0; \<open>pg_pages\<close> is \<open>None\<close> then. Failures of the store that do not depend
  on the statement end in the same 500 response as the modelled ones and are left
  out.
\<close>

definition sms_history_get :: "driver \<Rightarrow> db \<Rightarrow> history_query \<Rightarrow> history_response" where
  "sms_history_get D d q =
     (let page = (case q_page q of None \<Rightarrow> 1 | Some p \<Rightarrow> p);
          limit = (case q_limit q of None \<Rightarrow> 50 | Some l \<Rightarrow> l);
          offset = (page - 1) * limit
      in case build_conditions (q_filters q) of
           Inl error \<Rightarrow> HistoryInternal
         | Inr b \<Rightarrow>
             (let all_params = params b @ [PNum limit, PNum offset];
                  limitParam = paramCount b + 1;
                  offsetParam = paramCount b + 2
              in case select_history D d (conditions b) limitParam offsetParam all_params of
                   Inl error \<Rightarrow> HistoryInternal
                 | Inr rows \<Rightarrow>
                     (case count_history D d (conditions b)
                             (take (paramCount b) all_params) of
                        Inl error \<Rightarrow> HistoryInternal
                      | Inr total' \<Rightarrow>
                          HistoryOk
                            \<lparr> hk_data = rows,
                              hk_pagination =
                                \<lparr> pg_page = page,
                                  pg_limit = limit,
                                  pg_total = total',
                                  pg_pages =
                                    (if limit = 0 then None
                                     else Some \<lceil>rat_of_int (int total') /
                                                rat_of_int limit\<rceil>),
                                  hasNext = (page * limit < int total'),
                                  hasPrev = (page > 1) \<rparr>,
                              hk_filters = q_filters q \<rparr>)))"

section \<open>Notions for stating the properties of the history query\<close>

text \<open>
  These definitions are not code of the repository. A filter is supplied when the
  handler's \<open>if (value)\<close> passes; \<open>supplied_kinds\<close> lists the supplied filters in
  the order of the handler.
\<close>

datatype filter_kind = Status | ModelId | PhoneNumber | DateFrom | DateTo | Search

fun clause_for :: "filter_kind \<Rightarrow> nat \<Rightarrow> clause" where
  "clause_for Status n = StatusEq n"
| "clause_for ModelId n = ModelIdEq n"
| "clause_for PhoneNumber n = PhoneILike n"
| "clause_for DateFrom n = SentAtGe n"
| "clause_for DateTo n = SentAtLe n"
| "clause_for Search n = SearchILike n"

fun param_for :: "filter_kind \<Rightarrow> qval \<Rightarrow> js_error + param" where
  "param_for Status v = raw_value v"
| "param_for ModelId v = raw_value v"
| "param_for PhoneNumber v = like_pattern v"
| "param_for DateFrom v = raw_value v"
| "param_for DateTo v = raw_value v"
| "param_for Search v = like_pattern v"

fun value_of :: "filters \<Rightarrow> filter_kind \<Rightarrow> qval option" where
  "value_of f Status = f_status f"
| "value_of f ModelId = f_modelId f"
| "value_of f PhoneNumber = f_phoneNumber f"
| "value_of f DateFrom = f_dateFrom f"
| "value_of f DateTo = f_dateTo f"
| "value_of f Search = f_search f"

definition supplied :: "filters \<Rightarrow> filter_kind \<Rightarrow> bool" where
  "supplied f k = (case value_of f k of None \<Rightarrow> False | Some v \<Rightarrow> q_truthy v)"

definition supplied_kinds :: "filters \<Rightarrow> filter_kind list" where
  "supplied_kinds f = filter (supplied f) [Status, ModelId, PhoneNumber, DateFrom, DateTo, Search]"

text \<open>
  The clauses of a list of filters, numbered from 1. \<open>built f b ks\<close>: the
  builder \<open>b\<close> holds the clauses and the parameters of the filters \<open>ks\<close>, none
  of whose conversions has thrown. \<open>convertible f\<close>: no supplied filter of \<open>f\<close>
  throws when its parameter is built.
\<close>

definition numbered :: "filter_kind list \<Rightarrow> clause list" where
  "numbered ks = map (\<lambda>(i, k). clause_for k (Suc i)) (enumerate 0 ks)"

definition built :: "filters \<Rightarrow> builder \<Rightarrow> filter_kind list \<Rightarrow> bool" where
  "built f b ks =
     (conditions b = numbered ks \<and>
      map Inr (params b) = map (\<lambda>k. param_for k (the (value_of f k))) ks \<and>
      paramCount b = length ks)"

definition convertible :: "filters \<Rightarrow> bool" where
  "convertible f =
     list_all (\<lambda>k. \<not> isl (param_for k (the (value_of f k)))) (supplied_kinds f)"

subsection \<open>The predicate in the words of the specification\<close>

text \<open>
  The specification of the predicate, written without the functions of the
  handler. A filter is given when the query has it with a value other than the
  empty string. The filters are taken in the fixed order status, model, phone
  number, start date, end date, search.
\<close>

fun given :: "qval option \<Rightarrow> bool" where
  "given None = False"
| "given (Some (QStr s)) = (s \<noteq> [])"
| "given (Some (QArr xs)) = True"
| "given (Some (QObj kvs)) = True"

definition filters_given :: "filters \<Rightarrow> filter_kind list" where
  "filters_given f =
     (if given (f_status f) then [Status] else []) @
     (if given (f_modelId f) then [ModelId] else []) @
     (if given (f_phoneNumber f) then [PhoneNumber] else []) @
     (if given (f_dateFrom f) then [DateFrom] else []) @
     (if given (f_dateTo f) then [DateTo] else []) @
     (if given (f_search f) then [Search] else [])"

text \<open>
  The text of the \<open>n\<close>-th positional placeholder (there are at most six
  filters), the text of the clause of a filter whose value is the \<open>n\<close>-th
  parameter, the clauses of a list of filters numbered from \<open>n\<close>, their
  conjunction, and the \<open>WHERE\<close> text: nothing when no filter is given. All of
  them are functions of which filters are given, never of a value.
\<close>

definition positional :: "nat \<Rightarrow> string" where
  "positional n =
     (if n = 1 then ''$1'' else if n = 2 then ''$2'' else if n = 3 then ''$3''
      else if n = 4 then ''$4'' else if n = 5 then ''$5'' else ''$6'')"

fun clause_text :: "filter_kind \<Rightarrow> nat \<Rightarrow> string" where
  "clause_text Status n = ''h.status = '' @ positional n"
| "clause_text ModelId n = ''h.model_id = '' @ positional n"
| "clause_text PhoneNumber n = ''h.phone_number ILIKE '' @ positional n"
| "clause_text DateFrom n = ''h.sent_at >= '' @ positional n"
| "clause_text DateTo n = ''h.sent_at <= '' @ positional n"
| "clause_text Search n =
     ''(h.command_text ILIKE '' @ positional n @ '' OR h.notes ILIKE '' @ positional n @
     '' OR m.name ILIKE '' @ positional n @ '')''"

fun clause_texts :: "nat \<Rightarrow> filter_kind list \<Rightarrow> string list" where
  "clause_texts n [] = []"
| "clause_texts n (k # ks) = clause_text k n # clause_texts (Suc n) ks"

definition conjunction :: "string list \<Rightarrow> string" where
  "conjunction cs =
     (case cs of [] \<Rightarrow> [] | c # rest \<Rightarrow> foldl (\<lambda>acc x. acc @ '' AND '' @ x) c rest)"

definition where_of :: "filter_kind list \<Rightarrow> string" where
  "where_of ks = (if ks = [] then [] else ''WHERE '' @ conjunction (clause_texts 1 ks))"

text \<open>
  The text of a value of the query string, where it has one: a string is its own
  text, a list is the texts of its elements separated by commas, an object
  without a key \<open>toString\<close> is \<open>[object Object]\<close>, and an object with that key
  has no text. The parameter of a given filter is its value, and for the phone
  number and the search it is the text of the value between two \<open>%\<close>.
\<close>

definition comma_separated :: "jsstring list \<Rightarrow> jsstring" where
  "comma_separated ts =
     (case ts of [] \<Rightarrow> [] | t # rest \<Rightarrow> foldl (\<lambda>acc x. acc @ js '','' @ x) t rest)"

fun text_of :: "qval \<Rightarrow> jsstring option" where
  "text_of (QStr s) = Some s"
| "text_of (QArr xs) =
     (if list_all (\<lambda>x. text_of x \<noteq> None) xs
      then Some (comma_separated (map (\<lambda>x. the (text_of x)) xs))
      else None)"
| "text_of (QObj kvs) =
     (if map_of kvs (js ''toString'') = None then Some (js ''[object Object]'') else None)"

definition wrapped :: "qval option \<Rightarrow> param option" where
  "wrapped v =
     (case v of
        None \<Rightarrow> None
      | Some x \<Rightarrow> map_option (\<lambda>t. PStr (js ''%'' @ t @ js ''%'')) (text_of x))"

fun parameter_of :: "filters \<Rightarrow> filter_kind \<Rightarrow> param option" where
  "parameter_of f Status = map_option PQuery (f_status f)"
| "parameter_of f ModelId = map_option PQuery (f_modelId f)"
| "parameter_of f PhoneNumber = wrapped (f_phoneNumber f)"
| "parameter_of f DateFrom = map_option PQuery (f_dateFrom f)"
| "parameter_of f DateTo = map_option PQuery (f_dateTo f)"
| "parameter_of f Search = wrapped (f_search f)"

subsection \<open>The rows of a set of filters\<close>

text \<open>
  The predicate of a set of filters, on a row of the join and on a returned row:
  every supplied filter holds. \<open>bind_kind\<close> is the bound value of a filter: none
  when the conversion of the value throws in the handler or is refused by the
  store.
\<close>

fun bind_kind :: "driver \<Rightarrow> filter_kind \<Rightarrow> qval \<Rightarrow> bound option" where
  "bind_kind D Status v = Some (BStatus (bind_text D (PQuery v)))"
| "bind_kind D ModelId v = map_option BModelId (bind_int D (PQuery v))"
| "bind_kind D PhoneNumber v =
     (case qval_to_string v of
        Inl e \<Rightarrow> None
      | Inr s \<Rightarrow> Some (BPhone (js ''%'' @ s @ js ''%'')))"
| "bind_kind D DateFrom v = map_option BFrom (to_timestamp D (PQuery v))"
| "bind_kind D DateTo v = map_option BTo (to_timestamp D (PQuery v))"
| "bind_kind D Search v =
     (case qval_to_string v of
        Inl e \<Rightarrow> None
      | Inr s \<Rightarrow> Some (BSearch (js ''%'' @ s @ js ''%'')))"

definition bindable :: "driver \<Rightarrow> filters \<Rightarrow> bool" where
  "bindable D f =
     list_all (\<lambda>k. bind_kind D k (the (value_of f k)) \<noteq> None) (supplied_kinds f)"

definition passes :: "driver \<Rightarrow> filters \<Rightarrow> sms_history_row \<times> device_model option \<Rightarrow> bool" where
  "passes D f x =
     list_all (\<lambda>k. case bind_kind D k (the (value_of f k)) of
                      None \<Rightarrow> False
                    | Some b \<Rightarrow> satisfies D x b)
              (supplied_kinds f)"

fun holds :: "driver \<Rightarrow> history_item \<Rightarrow> bound \<Rightarrow> bool" where
  "holds D it (BStatus s) = (h_status (hi_row it) = Some s)"
| "holds D it (BModelId k) = (h_model_id (hi_row it) = Some k)"
| "holds D it (BPhone pat) = ilike D (h_phone_number (hi_row it)) pat"
| "holds D it (BFrom t) = (h_sent_at (hi_row it) \<ge> t)"
| "holds D it (BTo t) = (h_sent_at (hi_row it) \<le> t)"
| "holds D it (BSearch pat) =
     (ilike D (h_command_text (hi_row it)) pat \<or>
      (case h_notes (hi_row it) of None \<Rightarrow> False | Some n \<Rightarrow> ilike D n pat) \<or>
      (case hi_model_name it of None \<Rightarrow> False | Some n \<Rightarrow> ilike D n pat))"

definition item_passes :: "driver \<Rightarrow> filters \<Rightarrow> history_item \<Rightarrow> bool" where
  "item_passes D f it =
     list_all (\<lambda>k. case bind_kind D k (the (value_of f k)) of
                      None \<Rightarrow> False
                    | Some b \<Rightarrow> holds D it b)
              (supplied_kinds f)"

definition matching :: "driver \<Rightarrow> db \<Rightarrow> filters \<Rightarrow> (sms_history_row \<times> device_model option) list" where
  "matching D d f = filter (passes D f) (left_join d)"

text \<open>
  The page and the limit of a request, with their defaults.
\<close>

definition page_of :: "history_query \<Rightarrow> int" where
  "page_of q = (case q_page q of None \<Rightarrow> 1 | Some p \<Rightarrow> p)"

definition limit_of :: "history_query \<Rightarrow> int" where
  "limit_of q = (case q_limit q of None \<Rightarrow> 50 | Some l \<Rightarrow> l)"

text \<open>
  \<open>extends f f'\<close>: \<open>f'\<close> has every filter that \<open>f\<close> supplies, with the same
  value, and may supply more.
\<close>

definition all_kinds :: "filter_kind list" where
  "all_kinds = [Status, ModelId, PhoneNumber, DateFrom, DateTo, Search]"

definition extends :: "filters \<Rightarrow> filters \<Rightarrow> bool" where
  "extends f f' = list_all (\<lambda>k. \<not> supplied f k \<or> value_of f' k = value_of f k) all_kinds"

section \<open>Example data for the history query and the deletion\<close>

text \<open>
  A store where the model GT06 has no command and one history row, a store with
  three history rows, and two queries.
\<close>

definition used_model_db :: db where
  "used_model_db =
     \<lparr> device_models = [\<lparr> dm_id = 1, dm_name = js ''TK103'', dm_description = None \<rparr>,
                         \<lparr> dm_id = 2, dm_name = js ''GT06'', dm_description = None \<rparr>],
       commands = [\<lparr> c_id = 1, c_model_id = Some 1, c_command_text = js ''STATUS123456'',
                     c_description = None \<rparr>],
       sms_history =
         [\<lparr> h_id = 1, h_phone_number = js ''+5511999999999'', h_model_id = Some 2,
            h_command_text = js ''RESET#'', h_status = Some (js ''sent''), h_sent_at = 1000,
            h_details = None, h_notes = None, h_response_data = None \<rparr>],
       sms_history_id_seq = 1 \<rparr>"

definition history_db :: db where
  "history_db =
     \<lparr> device_models = [\<lparr> dm_id = 1, dm_name = js ''TK103'', dm_description = None \<rparr>,
                         \<lparr> dm_id = 2, dm_name = js ''GT06'', dm_description = None \<rparr>],
       commands = [],
       sms_history =
         [\<lparr> h_id = 1, h_phone_number = js ''+5511999999999'', h_model_id = Some 1,
            h_command_text = js ''RESET123456'', h_status = Some (js ''sent''), h_sent_at = 1000,
            h_details = None, h_notes = None, h_response_data = None \<rparr>,
          \<lparr> h_id = 2, h_phone_number = js ''+5511888888888'', h_model_id = Some 2,
            h_command_text = js ''RESET#'', h_status = Some (js ''failed''), h_sent_at = 3000,
            h_details = None, h_notes = Some (js ''night shift''), h_response_data = None \<rparr>,
          \<lparr> h_id = 3, h_phone_number = js ''+5511777777777'', h_model_id = Some 1,
            h_command_text = js ''STATUS123456'', h_status = Some (js ''failed''), h_sent_at = 2000,
            h_details = None, h_notes = None, h_response_data = None \<rparr>],
       sms_history_id_seq = 3 \<rparr>"

definition no_filters :: filters where
  "no_filters = \<lparr> f_status = None, f_modelId = None, f_phoneNumber = None,
                  f_dateFrom = None, f_dateTo = None, f_search = None \<rparr>"

text \<open>
  Filters whose search value is an attempt at injection, and filters whose search
  value is an object with a key \<open>toString\<close> (\<open>?search[toString]=x\<close>).
\<close>

definition injection_filters :: filters where
  "injection_filters =
     no_filters \<lparr> f_modelId := Some (QStr (js ''2'')),
                   f_dateFrom := Some (QStr (js ''2024-01-01'')),
                   f_search := Some (QStr (js ''x' OR 1=1 --'')) \<rparr>"

definition unconvertible_search :: filters where
  "unconvertible_search =
     no_filters \<lparr> f_search := Some (QObj [(js ''toString'', QStr (js ''x''))]) \<rparr>"

definition first_page :: history_query where
  "first_page = \<lparr> q_page = None, q_limit = None, q_filters = no_filters \<rparr>"

definition failed_page_2 :: history_query where
  "failed_page_2 = \<lparr> q_page = Some 2, q_limit = Some 1,
                     q_filters = no_filters \<lparr> f_status := Some (QStr (js ''failed'')) \<rparr> \<rparr>"

section \<open>Properties of the dispatch stub\<close>

text \<open>
  C7. For every phone number, command text and model name, and for every value
  of the random draws and of the clock, \<open>sendSMSCommand\<close> returns a record and
  throws nothing (its \<open>try\<close> block yields the record itself, so the \<open>catch\<close>
  clause is never entered); \<open>success\<close> is true exactly when the first draw is
  above the double \<open>0.1\<close>. When the record has \<open>success = true\<close> it carries a
  message identifier that starts with \<open>msg_\<close> and a non-empty detail string; when
  it has \<open>success = false\<close> it carries the error code \<open>NETWORK_ERROR\<close> and the
  fixed detail string.
\<close>

theorem sendSMSCommand_definite:
  "sendSMSCommand_try e phoneNumber command modelName =
     Inr (sendSMSCommand e phoneNumber command modelName) \<and>
   success (sendSMSCommand e phoneNumber command modelName) = (double_0_1 < random1 e) \<and>
   (if success (sendSMSCommand e phoneNumber command modelName)
    then (\<exists>m. messageId (sendSMSCommand e phoneNumber command modelName) =
                Some (js ''msg_'' @ m)) \<and>
         details (sendSMSCommand e phoneNumber command modelName) \<noteq> [] \<and>
         errorCode (sendSMSCommand e phoneNumber command modelName) = None
    else errorCode (sendSMSCommand e phoneNumber command modelName) =
           Some (js ''NETWORK_ERROR'') \<and>
         details (sendSMSCommand e phoneNumber command modelName) =
           js ''SMS delivery failed - network error'' \<and>
         messageId (sendSMSCommand e phoneNumber command modelName) = None)"
  by (simp add: sendSMSCommand_def sendSMSCommand_try_def js_def)

section \<open>Validation of the phone numbers\<close>

lemma call_trim_string: "is_string p \<Longrightarrow> call_trim x p = Inr (js_trim (str_of p))"
  by (cases p) simp_all

lemma call_trim_not_string: "\<not> is_string p \<Longrightarrow> \<exists>m. call_trim x p = Inl (TypeError m)"
  by (cases p) simp_all

lemma call_trim_Inr: "call_trim x v = Inr t \<Longrightarrow> is_string v \<and> t = js_trim (str_of v)"
  by (cases v) auto

lemma invalid_phones_strings:
  "list_all is_string ps \<Longrightarrow> invalid_phones ps = Inr (filter (\<lambda>p. \<not> valid_phone p) ps)"
  by (induction ps) (auto simp: call_trim_string valid_phone_def)

lemma invalid_phones_throws:
  "\<not> list_all is_string ps \<Longrightarrow> \<exists>m. invalid_phones ps = Inl (TypeError m)"
proof (induction ps)
  case Nil
  then show ?case by simp
next
  case (Cons p ps)
  show ?case
  proof (cases "is_string p")
    case True
    with Cons obtain m where "invalid_phones ps = Inl (TypeError m)" by auto
    with True show ?thesis by (simp add: call_trim_string)
  next
    case False
    then obtain m where "call_trim ''phone'' p = Inl (TypeError m)"
      using call_trim_not_string by blast
    then show ?thesis by simp
  qed
qed

lemma invalid_phones_Inr:
  assumes "invalid_phones ps = Inr bad"
  shows "list_all is_string ps \<and> bad = filter (\<lambda>p. \<not> valid_phone p) ps"
proof -
  have s: "list_all is_string ps"
  proof (rule ccontr)
    assume "\<not> list_all is_string ps"
    then obtain m where "invalid_phones ps = Inl (TypeError m)"
      using invalid_phones_throws by blast
    with assms show False by simp
  qed
  with assms show ?thesis by (simp add: invalid_phones_strings)
qed

lemma isArray_truthy: "isArray v \<Longrightarrow> truthy v"
  by (cases v) simp_all

lemma is_string_trim_truthy: "is_string v \<Longrightarrow> js_trim (str_of v) \<noteq> [] \<Longrightarrow> truthy v"
  by (cases v) (auto simp: js_trim_def)

lemma filter_invalid_empty:
  "(filter (\<lambda>p. \<not> valid_phone p) ps = []) = list_all valid_phone ps"
  by (induction ps) auto

lemma filter_valid_all: "list_all valid_phone ps \<Longrightarrow> filter valid_phone ps = ps"
  by (induction ps) auto

text \<open>
  A request that reaches the validation either is rejected with the invalid
  numbers, or goes on to the lookup of the model and to the loop.
\<close>

lemma sms_send_validated:
  assumes "well_formed body"
  shows "sms_send D E d body =
     (if \<not> list_all valid_phone (elements (phoneNumbers body))
      then \<lparr> response = SendInvalidPhones
                          (filter (\<lambda>p. \<not> valid_phone p) (elements (phoneNumbers body))),
             store = d, dispatched = [] \<rparr>
      else
        (case select_model_name D (lookup_fault E) d (PJson (modelId body)) of
           Inl e \<Rightarrow> \<lparr> response = SendInternal e, store = d, dispatched = [] \<rparr>
         | Inr [] \<Rightarrow> \<lparr> response = SendModelNotFound, store = d, dispatched = [] \<rparr>
         | Inr (modelName # others) \<Rightarrow>
             (let st = send_loop D (attempts E) (modelId body)
                         (str_of (commandText body)) (notes_val body) modelName 0
                         (elements (phoneNumbers body))
                         \<lparr> ls_db = d, ls_results = [], ls_errors = [],
                           ls_dispatched = [], ls_thrown = None \<rparr>
              in case ls_thrown st of
                   Some e \<Rightarrow>
                     \<lparr> response = SendInternal e, store = ls_db st,
                       dispatched = ls_dispatched st \<rparr>
                 | None \<Rightarrow>
                     \<lparr> response =
                         SendOk (send_report (length (elements (phoneNumbers body))) st),
                       store = ls_db st,
                       dispatched = ls_dispatched st \<rparr>)))"
proof -
  from assms have a: "isArray (phoneNumbers body)" "elements (phoneNumbers body) \<noteq> []"
    "list_all is_string (elements (phoneNumbers body))" "truthy (modelId body)"
    "is_string (commandText body)" "js_trim (str_of (commandText body)) \<noteq> []"
    by (simp_all add: well_formed_def)
  have t1: "truthy (phoneNumbers body)" using a(1) by (rule isArray_truthy)
  have t2: "truthy (commandText body)" using a(5,6) by (rule is_string_trim_truthy)
  have c: "call_trim ''commandText'' (commandText body) = Inr (js_trim (str_of (commandText body)))"
    using a(5) by (rule call_trim_string)
  have v: "invalid_phones (elements (phoneNumbers body)) =
             Inr (filter (\<lambda>p. \<not> valid_phone p) (elements (phoneNumbers body)))"
    using a(3) by (rule invalid_phones_strings)
  show ?thesis
    unfolding sms_send_def
    by (simp add: a t1 t2 c v filter_invalid_empty del: send_loop.simps)
qed

section \<open>The loop over the phone numbers\<close>

lemma send_step_fault:
  assumes "is_string phone" and "insert_fault a = Some e"
  shows "send_step D a model_id command nts modelName phone st =
           st \<lparr> ls_dispatched := ls_dispatched st @ [(js_trim (str_of phone), command, modelName)],
                ls_errors := ls_errors st @
                  [\<lparr> e_phone = js_trim (str_of phone), e_error = err_message e \<rparr>] \<rparr>"
  using assms
  by (simp add: send_step_def call_trim_string insert_sms_history_def Let_def)

lemma send_step_stored:
  assumes "is_string phone" and "insert_fault a = None"
    and "bind_int D (PJson model_id) = Some k"
    and "list_ex (\<lambda>m. dm_id m = k) (device_models (ls_db st))"
  shows "send_step D a model_id command nts modelName phone st =
           st \<lparr> ls_dispatched := ls_dispatched st @ [(js_trim (str_of phone), command, modelName)],
                ls_db := (ls_db st) \<lparr> sms_history := sms_history (ls_db st) @
                     [stored_row D a (sms_history_id_seq (ls_db st)) k command nts modelName phone],
                   sms_history_id_seq := sms_history_id_seq (ls_db st) + 1 \<rparr>,
                ls_results := ls_results st @
                  [\<lparr> r_phone = js_trim (str_of phone),
                     r_status = status_text (sendSMSCommand (rng a) (js_trim (str_of phone)) command modelName),
                     r_id = sms_history_id_seq (ls_db st) + 1,
                     r_details = details (sendSMSCommand (rng a) (js_trim (str_of phone)) command modelName) \<rparr>] \<rparr>"
  using assms
  by (simp add: send_step_def call_trim_string insert_sms_history_def Let_def stored_row_def)

lemma result_entry_stored_row:
  "result_entry (stored_row D a seq k command nts modelName phone) =
     \<lparr> r_phone = js_trim (str_of phone),
       r_status = status_text (sendSMSCommand (rng a) (js_trim (str_of phone)) command modelName),
       r_id = seq + 1,
       r_details = details (sendSMSCommand (rng a) (js_trim (str_of phone)) command modelName) \<rparr>"
  by (simp add: result_entry_def stored_row_def Let_def)

text \<open>
  On strings the loop never throws, and its final state is the initial one with
  the stored rows, their result entries, the reported errors and one call of the
  stub for every number.
\<close>

lemma send_loop_strings:
  assumes "list_all is_string ps" and "ls_thrown st = None"
    and "bind_int D (PJson model_id) = Some k"
    and "list_ex (\<lambda>m. dm_id m = k) (device_models (ls_db st))"
  shows "send_loop D A model_id command nts modelName i ps st =
           st \<lparr> ls_db := (ls_db st) \<lparr>
                   sms_history := sms_history (ls_db st) @
                     stored_rows D A (sms_history_id_seq (ls_db st)) k command nts modelName i ps,
                   sms_history_id_seq := sms_history_id_seq (ls_db st) +
                     int (length (stored_rows D A (sms_history_id_seq (ls_db st)) k command nts
                                    modelName i ps)) \<rparr>,
                ls_results := ls_results st @
                  map result_entry
                    (stored_rows D A (sms_history_id_seq (ls_db st)) k command nts modelName i ps),
                ls_errors := ls_errors st @ reported_errors A i ps,
                ls_dispatched := ls_dispatched st @
                  map (\<lambda>p. (js_trim (str_of p), command, modelName)) ps \<rparr>"
  using assms
proof (induction ps arbitrary: i st)
  case Nil
  then show ?case by simp
next
  case (Cons p ps)
  from Cons.prems have str: "is_string p" and rest: "list_all is_string ps" by simp_all
  show ?case
  proof (cases "insert_fault (A i)")
    case None
    let ?st' = "send_step D (A i) model_id command nts modelName p st"
    have step: "?st' = st \<lparr> ls_dispatched := ls_dispatched st @ [(js_trim (str_of p), command, modelName)],
                ls_db := (ls_db st) \<lparr> sms_history := sms_history (ls_db st) @
                     [stored_row D (A i) (sms_history_id_seq (ls_db st)) k command nts modelName p],
                   sms_history_id_seq := sms_history_id_seq (ls_db st) + 1 \<rparr>,
                ls_results := ls_results st @
                  [\<lparr> r_phone = js_trim (str_of p),
                     r_status = status_text (sendSMSCommand (rng (A i)) (js_trim (str_of p)) command modelName),
                     r_id = sms_history_id_seq (ls_db st) + 1,
                     r_details = details (sendSMSCommand (rng (A i)) (js_trim (str_of p)) command modelName) \<rparr>] \<rparr>"
      using send_step_stored [OF str None Cons.prems(3) Cons.prems(4)] .
    have thrown: "ls_thrown ?st' = None" using Cons.prems(2) by (simp add: step)
    have fk: "list_ex (\<lambda>m. dm_id m = k) (device_models (ls_db ?st'))"
      using Cons.prems(4) by (simp add: step)
    note ih = Cons.IH [OF rest thrown Cons.prems(3) fk]
    show ?thesis
      by (simp add: Let_def thrown ih None) (simp add: step result_entry_stored_row)
  next
    case (Some e)
    let ?st' = "send_step D (A i) model_id command nts modelName p st"
    have step: "?st' = st \<lparr> ls_dispatched := ls_dispatched st @ [(js_trim (str_of p), command, modelName)],
                ls_errors := ls_errors st @
                  [\<lparr> e_phone = js_trim (str_of p), e_error = err_message e \<rparr>] \<rparr>"
      using send_step_fault [OF str Some] .
    have thrown: "ls_thrown ?st' = None" using Cons.prems(2) by (simp add: step)
    have fk: "list_ex (\<lambda>m. dm_id m = k) (device_models (ls_db ?st'))"
      using Cons.prems(4) by (simp add: step)
    note ih = Cons.IH [OF rest thrown Cons.prems(3) fk]
    show ?thesis
      by (simp add: Let_def thrown ih Some) (simp add: step)
  qed
qed

lemma stored_plus_reported:
  "length (stored_rows D A seq k command nts modelName i ps) + length (reported_errors A i ps) =
     length ps"
  by (induction ps arbitrary: seq i) (auto split: option.splits)

lemma stored_all_aux:
  "(\<And>j. i \<le> j \<Longrightarrow> j < i + length ps \<Longrightarrow> insert_fault (A j) = None) \<Longrightarrow>
     length (stored_rows D A seq k command nts modelName i ps) = length ps \<and>
     reported_errors A i ps = []"
proof (induction ps arbitrary: seq i)
  case Nil
  then show ?case by simp
next
  case (Cons p ps)
  have h: "insert_fault (A i) = None" by (rule Cons.prems) simp_all
  have "length (stored_rows D A (seq + 1) k command nts modelName (Suc i) ps) = length ps \<and>
        reported_errors A (Suc i) ps = []"
    by (rule Cons.IH) (rule Cons.prems, simp_all)
  with h show ?case by simp
qed

lemma stored_all:
  "list_all (\<lambda>j. insert_fault (A j) = None) [0..<length ps] \<Longrightarrow>
     length (stored_rows D A seq k command nts modelName 0 ps) = length ps \<and>
     reported_errors A 0 ps = []"
  by (rule stored_all_aux) (simp add: list_all_iff)

lemma reported_errors_empty:
  "(reported_errors A i ps = []) =
     (\<forall>j. i \<le> j \<and> j < i + length ps \<longrightarrow> insert_fault (A j) = None)"
proof (induction ps arbitrary: i)
  case Nil
  then show ?case by auto
next
  case (Cons p ps)
  have split: "\<And>j. (i \<le> j \<and> j < i + length (p # ps)) =
                     (j = i \<or> (Suc i \<le> j \<and> j < Suc i + length ps))"
    by auto
  show ?case
    by (simp only: split) (auto simp: Cons.IH split: option.splits)
qed

lemma reported_errors_enumerate:
  "reported_errors A i ps =
     map (\<lambda>(j, p). \<lparr> e_phone = js_trim (str_of p),
                      e_error = err_message (the (insert_fault (A j))) \<rparr>)
         (filter (\<lambda>(j, p). insert_fault (A j) \<noteq> None) (enumerate i ps))"
  by (induction ps arbitrary: i) (auto split: option.splits)

lemma stored_rows_phones:
  "map h_phone_number (stored_rows D A seq k command nts modelName i ps) =
     map (\<lambda>(j, p). js_trim (str_of p))
         (filter (\<lambda>(j, p). insert_fault (A j) = None) (enumerate i ps))"
  by (induction ps arbitrary: seq i) (auto simp: stored_row_def Let_def)

lemma result_entry_phone: "r_phone (result_entry row) = h_phone_number row"
  by (simp add: result_entry_def)

lemma status_text_cases: "status_text r = js ''sent'' \<or> status_text r = js ''failed''"
  by (simp add: status_text_def)

lemma sent_not_failed: "js ''sent'' \<noteq> js ''failed''"
  by (simp add: js_def)

lemma stored_status:
  "list_all (\<lambda>r. r_status r = js ''sent'' \<or> r_status r = js ''failed'')
     (map result_entry (stored_rows D A seq k command nts modelName i ps))"
  by (induction ps arbitrary: seq i)
     (auto simp: result_entry_stored_row status_text_cases)

lemma count_sent_failed:
  "list_all (\<lambda>r. r_status r = js ''sent'' \<or> r_status r = js ''failed'') rs \<Longrightarrow>
     length (filter (\<lambda>r. r_status r = js ''sent'') rs) +
     length (filter (\<lambda>r. r_status r = js ''failed'') rs) = length rs"
  by (induction rs) (auto simp: sent_not_failed)

section \<open>Requests that are processed\<close>

lemma select_model_name_Inr:
  assumes "select_model_name D f d p = Inr (n # ns)"
  shows "f = None \<and> (case bind_int D p of None \<Rightarrow> False
                      | Some k \<Rightarrow> list_ex (\<lambda>m. dm_id m = k) (device_models d))"
proof -
  from assms have f: "f = None"
    by (cases f) (simp_all add: select_model_name_def)
  from assms f obtain k where k: "bind_int D p = Some k"
    and ns: "map dm_name (filter (\<lambda>m. dm_id m = k) (device_models d)) = n # ns"
    by (cases "bind_int D p") (simp_all add: select_model_name_def)
  from ns have "filter (\<lambda>m. dm_id m = k) (device_models d) \<noteq> []" by auto
  then have "list_ex (\<lambda>m. dm_id m = k) (device_models d)"
    by (simp add: list_ex_iff filter_empty_conv)
  with f k show ?thesis by simp
qed

lemma sms_send_processed:
  assumes wf: "well_formed body" and mr: "model_resolves D E d body"
    and valid: "list_all valid_phone (elements (phoneNumbers body))"
  shows "\<exists>k modelName others.
     bind_int D (PJson (modelId body)) = Some k \<and>
     map dm_name (filter (\<lambda>m. dm_id m = k) (device_models d)) = modelName # others \<and>
     sms_send D E d body =
       (let rows = stored_rows D (attempts E) (sms_history_id_seq d) k
                     (str_of (commandText body)) (notes_val body) modelName 0
                     (elements (phoneNumbers body));
            st = \<lparr> ls_db = d \<lparr> sms_history := sms_history d @ rows,
                               sms_history_id_seq := sms_history_id_seq d + int (length rows) \<rparr>,
                   ls_results = map result_entry rows,
                   ls_errors = reported_errors (attempts E) 0 (elements (phoneNumbers body)),
                   ls_dispatched = map (\<lambda>p. (js_trim (str_of p), str_of (commandText body), modelName))
                                     (elements (phoneNumbers body)),
                   ls_thrown = None \<rparr>
        in \<lparr> response = SendOk (send_report (length (elements (phoneNumbers body))) st),
              store = ls_db st, dispatched = ls_dispatched st \<rparr>)"
proof -
  from mr obtain k where nf: "lookup_fault E = None"
    and b: "bind_int D (PJson (modelId body)) = Some k"
    and ex: "list_ex (\<lambda>m. dm_id m = k) (device_models d)"
    by (auto simp: model_resolves_def split: option.splits)
  from ex have "filter (\<lambda>m. dm_id m = k) (device_models d) \<noteq> []"
    by (simp add: list_ex_iff filter_empty_conv)
  then obtain modelName others where
    names: "map dm_name (filter (\<lambda>m. dm_id m = k) (device_models d)) = modelName # others"
    by (cases "filter (\<lambda>m. dm_id m = k) (device_models d)") auto
  from b have b': "to_int D (PJson (modelId body)) = Some k" by simp
  have sel: "select_model_name D (lookup_fault E) d (PJson (modelId body)) = Inr (modelName # others)"
    by (simp add: select_model_name_def nf b' names)
  from wf have strs: "list_all is_string (elements (phoneNumbers body))"
    by (simp add: well_formed_def)
  define st0 where "st0 = \<lparr> ls_db = d, ls_results = [], ls_errors = [],
                              ls_dispatched = [], ls_thrown = None \<rparr>"
  have t0: "ls_thrown st0 = None" by (simp add: st0_def)
  have f0: "list_ex (\<lambda>m. dm_id m = k) (device_models (ls_db st0))"
    using ex by (simp add: st0_def)
  note loop = send_loop_strings [OF strs t0 b f0, unfolded st0_def]
  show ?thesis
    apply (rule exI [of _ k], rule exI [of _ modelName], rule exI [of _ others])
    apply (simp only: sms_send_validated [OF wf] valid b names sel loop)
    apply (simp add: Let_def)
    done
qed

lemma sms_send_processed_ok:
  assumes "well_formed body" and "model_resolves D E d body"
    and "list_all valid_phone (elements (phoneNumbers body))"
  shows "\<exists>ok. response (sms_send D E d body) = SendOk ok"
  using sms_send_processed [OF assms] by (auto simp: Let_def)

text \<open>
  Only a request that reaches the validation, with valid numbers and a model that
  resolves, is answered with 200.
\<close>

lemma sms_send_ok_only:
  assumes ok: "response (sms_send D E d body) = SendOk b"
  shows "well_formed body \<and> list_all valid_phone (elements (phoneNumbers body)) \<and>
         model_resolves D E d body"
proof -
  have c1: "truthy (phoneNumbers body) \<and> isArray (phoneNumbers body) \<and>
            length (elements (phoneNumbers body)) \<noteq> 0"
    using ok by (auto simp: sms_send_def split: if_splits)
  have c2: "truthy (modelId body) \<and> truthy (commandText body)"
    using ok c1 by (auto simp: sms_send_def split: if_splits)
  obtain trimmed where t: "call_trim ''commandText'' (commandText body) = Inr trimmed"
    using ok c1 c2 by (cases "call_trim ''commandText'' (commandText body)") (auto simp: sms_send_def)
  have tn: "length trimmed \<noteq> 0"
    using ok c1 c2 t by (auto simp: sms_send_def split: if_splits)
  obtain bad where iv: "invalid_phones (elements (phoneNumbers body)) = Inr bad"
    using ok c1 c2 t tn
    by (cases "invalid_phones (elements (phoneNumbers body))") (auto simp: sms_send_def)
  have bn: "bad = []"
    using ok c1 c2 t tn iv by (auto simp: sms_send_def split: if_splits)
  obtain n ns where sel:
    "select_model_name D (lookup_fault E) d (PJson (modelId body)) = Inr (n # ns)"
    using ok c1 c2 t tn iv bn
    by (cases "select_model_name D (lookup_fault E) d (PJson (modelId body))")
       (auto simp: sms_send_def split: list.splits)
  from call_trim_Inr [OF t] tn have s: "is_string (commandText body)"
    "js_trim (str_of (commandText body)) \<noteq> []" by auto
  from invalid_phones_Inr [OF iv] bn
  have p: "list_all is_string (elements (phoneNumbers body))"
    "list_all valid_phone (elements (phoneNumbers body))"
    by (auto simp: filter_invalid_empty [symmetric])
  from select_model_name_Inr [OF sel] have m: "model_resolves D E d body"
    by (simp add: model_resolves_def)
  from c1 c2 s p m show ?thesis by (simp add: well_formed_def)
qed

lemma three_wf: "well_formed three_numbers"
  by (simp add: well_formed_def three_numbers_def js_def js_trim_def isWhiteSpace_def)

lemma three_valid: "list_all valid_phone (elements (phoneNumbers three_numbers))"
  by (simp add: three_numbers_def valid_phone_def js_def js_trim_def isWhiteSpace_def
        phoneRegex_test_def phone_char_def)

lemma three_resolves: "model_resolves demo_driver second_insert_fails demo_db three_numbers"
  by (simp add: model_resolves_def three_numbers_def demo_driver_def second_insert_fails_def
        demo_db_def)

lemma three_resolves_calm: "model_resolves demo_driver calm demo_db three_numbers"
  by (simp add: model_resolves_def three_numbers_def demo_driver_def calm_def demo_db_def)

section \<open>Properties of the send workflow\<close>

text \<open>
  C1, as amended. For every batch of strings submitted to \<open>POST /api/sms/send\<close>
  with a model that resolves and a command text that is not blank: when every
  number is syntactically valid, the request creates one \<open>sms_history\<close> row for
  each number whose \<open>INSERT\<close> the store accepts, that is the count of valid
  numbers less the entries of \<open>errors\<close>, and exactly the count of valid numbers
  when no \<open>INSERT\<close> fails; when some number is invalid, the request creates no
  row and the response lists exactly the invalid numbers.
\<close>

theorem rows_created_by_send:
  assumes wf: "well_formed body" and mr: "model_resolves D E d body"
  shows "if list_all valid_phone (elements (phoneNumbers body))
         then \<exists>ok rows.
                response (sms_send D E d body) = SendOk ok \<and>
                sms_history (store (sms_send D E d body)) = sms_history d @ rows \<and>
                length rows = length (ok_results ok) \<and>
                length rows + length (case ok_errors ok of None \<Rightarrow> [] | Some es \<Rightarrow> es) =
                  length (filter valid_phone (elements (phoneNumbers body))) \<and>
                (list_all (\<lambda>j. insert_fault (attempts E j) = None)
                    [0..<length (elements (phoneNumbers body))] \<longrightarrow>
                 length rows = length (filter valid_phone (elements (phoneNumbers body))))
         else response (sms_send D E d body) =
                SendInvalidPhones
                  (filter (\<lambda>p. \<not> valid_phone p) (elements (phoneNumbers body))) \<and>
              sms_history (store (sms_send D E d body)) = sms_history d"
proof (cases "list_all valid_phone (elements (phoneNumbers body))")
  case False
  then show ?thesis by (simp add: sms_send_validated [OF wf])
next
  case True
  let ?ps = "elements (phoneNumbers body)"
  from sms_send_processed [OF wf mr True] obtain k modelName others where
    out: "sms_send D E d body =
       (let rows = stored_rows D (attempts E) (sms_history_id_seq d) k
                     (str_of (commandText body)) (notes_val body) modelName 0 ?ps;
            st = \<lparr> ls_db = d \<lparr> sms_history := sms_history d @ rows,
                               sms_history_id_seq := sms_history_id_seq d + int (length rows) \<rparr>,
                   ls_results = map result_entry rows,
                   ls_errors = reported_errors (attempts E) 0 ?ps,
                   ls_dispatched = map (\<lambda>p. (js_trim (str_of p), str_of (commandText body), modelName)) ?ps,
                   ls_thrown = None \<rparr>
        in \<lparr> response = SendOk (send_report (length ?ps) st),
              store = ls_db st, dispatched = ls_dispatched st \<rparr>)"
    by blast
  define rows where "rows = stored_rows D (attempts E) (sms_history_id_seq d) k
                     (str_of (commandText body)) (notes_val body) modelName 0 ?ps"
  define errs where "errs = reported_errors (attempts E) 0 ?ps"
  define ok where "ok = send_report (length ?ps)
                   \<lparr> ls_db = d \<lparr> sms_history := sms_history d @ rows,
                               sms_history_id_seq := sms_history_id_seq d + int (length rows) \<rparr>,
                     ls_results = map result_entry rows,
                     ls_errors = errs,
                     ls_dispatched = map (\<lambda>p. (js_trim (str_of p), str_of (commandText body), modelName)) ?ps,
                     ls_thrown = None \<rparr>"
  have len: "length rows + length errs = length ?ps"
    unfolding rows_def errs_def by (rule stored_plus_reported)
  have all: "list_all (\<lambda>j. insert_fault (attempts E j) = None) [0..<length ?ps] \<Longrightarrow>
             length rows = length ?ps"
    unfolding rows_def using stored_all by blast
  have 1: "response (sms_send D E d body) = SendOk ok"
    by (simp add: out Let_def ok_def rows_def errs_def)
  have 2: "sms_history (store (sms_send D E d body)) = sms_history d @ rows"
    by (simp add: out Let_def rows_def)
  have 3: "length rows = length (ok_results ok)"
    by (simp add: ok_def send_report_def Let_def)
  have 4: "length rows + length (case ok_errors ok of None \<Rightarrow> [] | Some es \<Rightarrow> es) =
             length (filter valid_phone ?ps)"
    using len by (auto simp: ok_def send_report_def Let_def filter_valid_all [OF True])
  have 5: "list_all (\<lambda>j. insert_fault (attempts E j) = None) [0..<length ?ps] \<longrightarrow>
           length rows = length (filter valid_phone ?ps)"
    using all by (simp add: filter_valid_all [OF True])
  show ?thesis
    apply (simp only: True if_True)
    apply (rule exI [of _ ok], rule exI [of _ rows])
    apply (intro conjI 1 2 3 4 5)
    done
qed

theorem rows_created_by_send_witness:
  "well_formed three_numbers \<and> model_resolves demo_driver calm demo_db three_numbers \<and>
   list_all valid_phone (elements (phoneNumbers three_numbers)) \<and>
   length (sms_history (store (sms_send demo_driver calm demo_db three_numbers))) =
     length (sms_history demo_db) + 3"
proof -
  have n: "length (elements (phoneNumbers three_numbers)) = 3"
    by (simp add: three_numbers_def)
  have nf: "list_all (\<lambda>j. insert_fault (attempts calm j) = None)
              [0..<length (elements (phoneNumbers three_numbers))]"
    by (simp add: list_all_iff calm_def)
  from rows_created_by_send [OF three_wf three_resolves_calm]
  have "\<exists>ok rows.
          response (sms_send demo_driver calm demo_db three_numbers) = SendOk ok \<and>
          sms_history (store (sms_send demo_driver calm demo_db three_numbers)) =
            sms_history demo_db @ rows \<and>
          length rows = length (ok_results ok) \<and>
          length rows + length (case ok_errors ok of None \<Rightarrow> [] | Some es \<Rightarrow> es) =
            length (filter valid_phone (elements (phoneNumbers three_numbers))) \<and>
          (list_all (\<lambda>j. insert_fault (attempts calm j) = None)
              [0..<length (elements (phoneNumbers three_numbers))] \<longrightarrow>
           length rows = length (filter valid_phone (elements (phoneNumbers three_numbers))))"
    by (simp only: three_valid if_True)
  then obtain ok rows where
    h: "sms_history (store (sms_send demo_driver calm demo_db three_numbers)) =
          sms_history demo_db @ rows"
    and l: "list_all (\<lambda>j. insert_fault (attempts calm j) = None)
              [0..<length (elements (phoneNumbers three_numbers))] \<longrightarrow>
            length rows = length (filter valid_phone (elements (phoneNumbers three_numbers)))"
    by (elim exE conjE)
  from l nf have "length rows = 3"
    by (simp add: filter_valid_all [OF three_valid] n)
  with h have "length (sms_history (store (sms_send demo_driver calm demo_db three_numbers))) =
     length (sms_history demo_db) + 3" by simp
  with three_wf three_resolves_calm three_valid show ?thesis by (intro conjI)
qed

text \<open>
  C1 as the specification states it fails: in a batch of one valid and one
  invalid number the count of valid numbers is 1, and the request creates no row.
\<close>

theorem rows_equal_valid_count_counterexample:
  "well_formed mixed_batch \<and>
   model_resolves demo_driver calm demo_db mixed_batch \<and>
   length (filter valid_phone (elements (phoneNumbers mixed_batch))) = 1 \<and>
   response (sms_send demo_driver calm demo_db mixed_batch) =
     SendInvalidPhones [JStr (js ''abc'')] \<and>
   sms_history (store (sms_send demo_driver calm demo_db mixed_batch)) = sms_history demo_db \<and>
   length (sms_history (store (sms_send demo_driver calm demo_db mixed_batch))) -
     length (sms_history demo_db) \<noteq>
   length (filter valid_phone (elements (phoneNumbers mixed_batch)))"
proof -
  have wf: "well_formed mixed_batch"
    by (simp add: well_formed_def mixed_batch_def js_def js_trim_def isWhiteSpace_def)
  have mr: "model_resolves demo_driver calm demo_db mixed_batch"
    by (simp add: model_resolves_def mixed_batch_def demo_driver_def calm_def demo_db_def)
  have v: "filter valid_phone (elements (phoneNumbers mixed_batch)) = [JStr (js ''+5511999999999'')]"
    by (simp add: mixed_batch_def valid_phone_def js_def js_trim_def isWhiteSpace_def
          phoneRegex_test_def phone_char_def)
  have bad: "filter (\<lambda>p. \<not> valid_phone p) (elements (phoneNumbers mixed_batch)) =
               [JStr (js ''abc'')]"
    by (simp add: mixed_batch_def valid_phone_def js_def js_trim_def isWhiteSpace_def
          phoneRegex_test_def phone_char_def)
  have nv: "\<not> list_all valid_phone (elements (phoneNumbers mixed_batch))"
    using bad by (simp add: filter_invalid_empty [symmetric])
  have out: "sms_send demo_driver calm demo_db mixed_batch =
               \<lparr> response = SendInvalidPhones [JStr (js ''abc'')], store = demo_db,
                 dispatched = [] \<rparr>"
    by (simp add: sms_send_validated [OF wf] nv bad)
  show ?thesis
    by (simp add: wf mr v out)
qed

text \<open>
  C2, as amended. For every send request that reaches the validation of the
  phone numbers (a non-empty array of strings, a truthy model id, a command text
  that is not blank) and in which at least one number fails the pattern after
  trimming, the response is 400 with exactly the failing numbers, in the order of
  the request; the stub is not called and the store is unchanged.
\<close>

theorem invalid_phone_rejects_request:
  assumes "well_formed body"
    and "\<not> list_all valid_phone (elements (phoneNumbers body))"
  shows "sms_send D E d body =
           \<lparr> response = SendInvalidPhones
                          (filter (\<lambda>p. \<not> valid_phone p) (elements (phoneNumbers body))),
             store = d, dispatched = [] \<rparr> \<and>
         send_status (response (sms_send D E d body)) = 400"
  using assms by (simp add: sms_send_validated)

theorem invalid_phone_rejects_request_witness:
  "well_formed mixed_batch \<and>
   \<not> list_all valid_phone (elements (phoneNumbers mixed_batch)) \<and>
   sms_send demo_driver second_insert_fails demo_db mixed_batch =
     \<lparr> response = SendInvalidPhones [JStr (js ''abc'')], store = demo_db, dispatched = [] \<rparr> \<and>
   send_status (response (sms_send demo_driver second_insert_fails demo_db mixed_batch)) = 400"
proof -
  have wf: "well_formed mixed_batch"
    by (simp add: well_formed_def mixed_batch_def js_def js_trim_def isWhiteSpace_def)
  have bad: "filter (\<lambda>p. \<not> valid_phone p) (elements (phoneNumbers mixed_batch)) =
               [JStr (js ''abc'')]"
    by (simp add: mixed_batch_def valid_phone_def js_def js_trim_def isWhiteSpace_def
          phoneRegex_test_def phone_char_def)
  have nv: "\<not> list_all valid_phone (elements (phoneNumbers mixed_batch))"
    using bad by (simp add: filter_invalid_empty [symmetric])
  show ?thesis
    using invalid_phone_rejects_request [OF wf nv, of demo_driver second_insert_fails demo_db]
    by (simp add: wf nv bad)
qed

text \<open>
  C2 as the specification states it, for every send request with a number that
  fails the pattern, fails. The checks of the required fields come before the
  validation of the numbers: a request with the failing number \<open>abc\<close> and no
  model id is answered 400 with the message about the model id and the command
  text, not with a list of numbers. And a request with the failing number
  \<open>abc\<close> and an element that is not a string is answered 500. In both the stub
  is not called and the store is unchanged.
\<close>

theorem invalid_phone_without_list_counterexample:
  "list_all valid_phone (elements (phoneNumbers invalid_without_model)) = False \<and>
   sms_send demo_driver calm demo_db invalid_without_model =
     \<lparr> response = SendBadRequest ''Model ID and command text are required'',
       store = demo_db, dispatched = [] \<rparr> \<and>
   (\<forall>ps. response (sms_send demo_driver calm demo_db invalid_without_model) \<noteq>
           SendInvalidPhones ps) \<and>
   list_all valid_phone (elements (phoneNumbers invalid_and_number)) = False \<and>
   send_status (response (sms_send demo_driver calm demo_db invalid_and_number)) = 500 \<and>
   store (sms_send demo_driver calm demo_db invalid_and_number) = demo_db \<and>
   dispatched (sms_send demo_driver calm demo_db invalid_and_number) = []"
proof -
  have a: "list_all valid_phone (elements (phoneNumbers invalid_without_model)) = False"
    by (simp add: invalid_without_model_def valid_phone_def js_def js_trim_def isWhiteSpace_def
          phoneRegex_test_def phone_char_def)
  have b: "sms_send demo_driver calm demo_db invalid_without_model =
             \<lparr> response = SendBadRequest ''Model ID and command text are required'',
               store = demo_db, dispatched = [] \<rparr>"
    by (simp add: sms_send_def invalid_without_model_def)
  have c: "list_all valid_phone (elements (phoneNumbers invalid_and_number)) = False"
    by (simp add: invalid_and_number_def valid_phone_def js_def js_trim_def isWhiteSpace_def
          phoneRegex_test_def phone_char_def)
  have d: "sms_send demo_driver calm demo_db invalid_and_number =
             \<lparr> response = SendInternal (TypeError (js ''phone.trim is not a function'')),
               store = demo_db, dispatched = [] \<rparr>"
    by (simp add: sms_send_def invalid_and_number_def js_def js_trim_def isWhiteSpace_def
          phoneRegex_test_def phone_char_def)
  show ?thesis
    by (simp only: a b c d) simp
qed

text \<open>
  C5. For every send request that passes validation and whose model resolves,
  every phone number is dispatched, in order, whatever happens to the numbers
  before it; a number whose \<open>INSERT\<close> fails becomes an entry of \<open>errors\<close> with
  the trimmed number and the message of the error, the other numbers become the
  entries of \<open>results\<close> and the new rows of \<open>sms_history\<close>; \<open>errors\<close> is left out
  of the response when no \<open>INSERT\<close> fails. (The stub itself never throws, so an
  error of the \<open>try\<close> block is an error of the store.)
\<close>

theorem per_number_errors_do_not_abort:
  assumes "well_formed body" and "model_resolves D E d body"
    and "list_all valid_phone (elements (phoneNumbers body))"
  shows "\<exists>ok. response (sms_send D E d body) = SendOk ok \<and>
           map fst (dispatched (sms_send D E d body)) =
             map (\<lambda>p. js_trim (str_of p)) (elements (phoneNumbers body)) \<and>
           ok_errors ok =
             (if list_all (\<lambda>j. insert_fault (attempts E j) = None)
                   [0..<length (elements (phoneNumbers body))]
              then None
              else Some (map (\<lambda>(j, p). \<lparr> e_phone = js_trim (str_of p),
                                          e_error = err_message (the (insert_fault (attempts E j))) \<rparr>)
                           (filter (\<lambda>(j, p). insert_fault (attempts E j) \<noteq> None)
                              (enumerate 0 (elements (phoneNumbers body)))))) \<and>
           map r_phone (ok_results ok) =
             map (\<lambda>(j, p). js_trim (str_of p))
               (filter (\<lambda>(j, p). insert_fault (attempts E j) = None)
                  (enumerate 0 (elements (phoneNumbers body)))) \<and>
           map h_phone_number (sms_history (store (sms_send D E d body))) =
             map h_phone_number (sms_history d) @ map r_phone (ok_results ok)"
proof -
  let ?ps = "elements (phoneNumbers body)"
  let ?A = "attempts E"
  from sms_send_processed [OF assms] obtain k modelName others where
    out: "sms_send D E d body =
       (let rows = stored_rows D ?A (sms_history_id_seq d) k
                     (str_of (commandText body)) (notes_val body) modelName 0 ?ps;
            st = \<lparr> ls_db = d \<lparr> sms_history := sms_history d @ rows,
                               sms_history_id_seq := sms_history_id_seq d + int (length rows) \<rparr>,
                   ls_results = map result_entry rows,
                   ls_errors = reported_errors ?A 0 ?ps,
                   ls_dispatched = map (\<lambda>p. (js_trim (str_of p), str_of (commandText body), modelName)) ?ps,
                   ls_thrown = None \<rparr>
        in \<lparr> response = SendOk (send_report (length ?ps) st),
              store = ls_db st, dispatched = ls_dispatched st \<rparr>)"
    by blast
  have e: "(reported_errors ?A 0 ?ps = []) =
             list_all (\<lambda>j. insert_fault (?A j) = None) [0..<length ?ps]"
    by (auto simp: reported_errors_empty list_all_iff)
  show ?thesis
    apply (simp add: out Let_def send_report_def comp_def result_entry_phone
             stored_rows_phones e)
    apply (simp add: reported_errors_enumerate)
    done
qed

theorem per_number_errors_do_not_abort_witness:
  "well_formed three_numbers \<and>
   model_resolves demo_driver second_insert_fails demo_db three_numbers \<and>
   list_all valid_phone (elements (phoneNumbers three_numbers)) \<and>
   (\<exists>ok. response (sms_send demo_driver second_insert_fails demo_db three_numbers) = SendOk ok \<and>
      ok_errors ok = Some [\<lparr> e_phone = js ''+5511888888888'',
                             e_error = js ''terminating connection'' \<rparr>] \<and>
      map r_phone (ok_results ok) = [js ''+5511999999999'', js ''(11) 97777-7777'']) \<and>
   map fst (dispatched (sms_send demo_driver second_insert_fails demo_db three_numbers)) =
     [js ''+5511999999999'', js ''+5511888888888'', js ''(11) 97777-7777'']"
proof -
  have ps: "elements (phoneNumbers three_numbers) =
              [JStr (js ''+5511999999999''), JStr (js '' +5511888888888 ''),
               JStr (js ''(11) 97777-7777'')]"
    by (simp add: three_numbers_def)
  have tr: "js_trim (js ''+5511999999999'') = js ''+5511999999999''"
    "js_trim (js '' +5511888888888 '') = js ''+5511888888888''"
    "js_trim (js ''(11) 97777-7777'') = js ''(11) 97777-7777''"
    by (simp_all add: js_def js_trim_def isWhiteSpace_def)
  have f: "insert_fault (attempts second_insert_fails 0) = None"
    "insert_fault (attempts second_insert_fails (Suc 0)) =
       Some (StoreError ''57P01'' (js ''terminating connection''))"
    "insert_fault (attempts second_insert_fails (Suc (Suc 0))) = None"
    by (simp_all add: second_insert_fails_def)
  have up: "[0..<length [a, b, c]] = [0, Suc 0, Suc (Suc 0)]" for a b c :: jsval
    by (simp add: upt_rec)
  have inst: "\<exists>ok. response (sms_send demo_driver second_insert_fails demo_db three_numbers) =
                  SendOk ok \<and>
      map fst (dispatched (sms_send demo_driver second_insert_fails demo_db three_numbers)) =
        [js ''+5511999999999'', js ''+5511888888888'', js ''(11) 97777-7777''] \<and>
      ok_errors ok = Some [\<lparr> e_phone = js ''+5511888888888'',
                               e_error = js ''terminating connection'' \<rparr>] \<and>
      map r_phone (ok_results ok) = [js ''+5511999999999'', js ''(11) 97777-7777''] \<and>
      map h_phone_number
        (sms_history (store (sms_send demo_driver second_insert_fails demo_db three_numbers))) =
        map h_phone_number (sms_history demo_db) @ map r_phone (ok_results ok)"
    using per_number_errors_do_not_abort [OF three_wf three_resolves three_valid]
    by (simp add: ps tr f up)
  then obtain ok where r: "response (sms_send demo_driver second_insert_fails demo_db three_numbers) =
                        SendOk ok"
    and c: "map fst (dispatched (sms_send demo_driver second_insert_fails demo_db three_numbers)) =
              [js ''+5511999999999'', js ''+5511888888888'', js ''(11) 97777-7777'']"
    and e: "ok_errors ok = Some [\<lparr> e_phone = js ''+5511888888888'',
                                      e_error = js ''terminating connection'' \<rparr>]"
    and p: "map r_phone (ok_results ok) = [js ''+5511999999999'', js ''(11) 97777-7777'']"
    by (elim exE conjE)
  from r e p have "\<exists>ok. response (sms_send demo_driver second_insert_fails demo_db three_numbers) = SendOk ok \<and>
      ok_errors ok = Some [\<lparr> e_phone = js ''+5511888888888'',
                             e_error = js ''terminating connection'' \<rparr>] \<and>
      map r_phone (ok_results ok) = [js ''+5511999999999'', js ''(11) 97777-7777'']"
    by (intro exI conjI)
  with three_wf three_resolves three_valid c show ?thesis by (intro conjI)
qed

text \<open>
  C9. For every send request answered with 200 (the requests that pass validation
  and model resolution), \<open>summary.sent + summary.failed = summary.total\<close>,
  \<open>total\<close> is the length of \<open>phoneNumbers\<close>, every number is one entry of
  \<open>results\<close> or of \<open>errors\<close>, \<open>sent\<close> counts the results with status
  \<open>sent\<close>, and \<open>failed\<close> counts the results with status \<open>failed\<close> and the
  entries of \<open>errors\<close>.
\<close>

theorem summary_adds_up:
  assumes "response (sms_send D E d body) = SendOk ok"
  shows "sent (ok_summary ok) + failed (ok_summary ok) = total (ok_summary ok) \<and>
         total (ok_summary ok) = length (elements (phoneNumbers body)) \<and>
         length (ok_results ok) + length (case ok_errors ok of None \<Rightarrow> [] | Some es \<Rightarrow> es) =
           total (ok_summary ok) \<and>
         sent (ok_summary ok) = length (filter (\<lambda>r. r_status r = js ''sent'') (ok_results ok)) \<and>
         failed (ok_summary ok) =
           length (filter (\<lambda>r. r_status r = js ''failed'') (ok_results ok)) +
           length (case ok_errors ok of None \<Rightarrow> [] | Some es \<Rightarrow> es)"
proof -
  let ?ps = "elements (phoneNumbers body)"
  from sms_send_ok_only [OF assms] have wf: "well_formed body"
    and valid: "list_all valid_phone ?ps" and mr: "model_resolves D E d body"
    by simp_all
  from sms_send_processed [OF wf mr valid] obtain k modelName others where
    out: "sms_send D E d body =
       (let rows = stored_rows D (attempts E) (sms_history_id_seq d) k
                     (str_of (commandText body)) (notes_val body) modelName 0 ?ps;
            st = \<lparr> ls_db = d \<lparr> sms_history := sms_history d @ rows,
                               sms_history_id_seq := sms_history_id_seq d + int (length rows) \<rparr>,
                   ls_results = map result_entry rows,
                   ls_errors = reported_errors (attempts E) 0 ?ps,
                   ls_dispatched = map (\<lambda>p. (js_trim (str_of p), str_of (commandText body), modelName)) ?ps,
                   ls_thrown = None \<rparr>
        in \<lparr> response = SendOk (send_report (length ?ps) st),
              store = ls_db st, dispatched = ls_dispatched st \<rparr>)"
    by blast
  define rows where "rows = stored_rows D (attempts E) (sms_history_id_seq d) k
                     (str_of (commandText body)) (notes_val body) modelName 0 ?ps"
  define errs where "errs = reported_errors (attempts E) 0 ?ps"
  have len: "length rows + length errs = length ?ps"
    unfolding rows_def errs_def by (rule stored_plus_reported)
  have st: "list_all (\<lambda>r. r_status r = js ''sent'' \<or> r_status r = js ''failed'')
              (map result_entry rows)"
    unfolding rows_def by (rule stored_status)
  have cnt: "length (filter (\<lambda>r. r_status r = js ''sent'') (map result_entry rows)) +
             length (filter (\<lambda>r. r_status r = js ''failed'') (map result_entry rows)) =
             length rows"
    using count_sent_failed [OF st] by simp
  have ok: "ok = send_report (length ?ps)
                   \<lparr> ls_db = d \<lparr> sms_history := sms_history d @ rows,
                               sms_history_id_seq := sms_history_id_seq d + int (length rows) \<rparr>,
                     ls_results = map result_entry rows,
                     ls_errors = errs,
                     ls_dispatched = map (\<lambda>p. (js_trim (str_of p), str_of (commandText body), modelName)) ?ps,
                     ls_thrown = None \<rparr>"
    using assms by (simp add: out Let_def rows_def errs_def)
  show ?thesis
    unfolding ok send_report_def Let_def
    using len cnt by auto
qed

theorem summary_adds_up_witness:
  "\<exists>ok. response (sms_send demo_driver second_insert_fails demo_db three_numbers) = SendOk ok \<and>
        sent (ok_summary ok) + failed (ok_summary ok) = 3 \<and> total (ok_summary ok) = 3"
proof -
  from sms_send_processed_ok [OF three_wf three_resolves three_valid]
  obtain ok where r: "response (sms_send demo_driver second_insert_fails demo_db three_numbers) =
                        SendOk ok" ..
  have n: "length (elements (phoneNumbers three_numbers)) = 3"
    by (simp add: three_numbers_def)
  from summary_adds_up [OF r] n
  have "sent (ok_summary ok) + failed (ok_summary ok) = 3 \<and> total (ok_summary ok) = 3"
    by simp
  with r show ?thesis by blast
qed

text \<open>
  C10. A request whose \<open>phoneNumbers\<close> is a non-empty array with an element that
  is not a string (and whose model id is truthy and command text not blank) is
  answered with 500: \<open>phone.trim()\<close> throws a TypeError in the validation, which
  only the outer \<open>catch\<close> of the handler receives. The stub is not called and the
  store is unchanged. The witness is a batch with a JSON number in it.
\<close>

theorem non_string_phone_is_internal_error:
  assumes "isArray (phoneNumbers body)" and "elements (phoneNumbers body) \<noteq> []"
    and "\<not> list_all is_string (elements (phoneNumbers body))"
    and "truthy (modelId body)"
    and "is_string (commandText body)" and "js_trim (str_of (commandText body)) \<noteq> []"
  shows "\<exists>m. sms_send D E d body =
               \<lparr> response = SendInternal (TypeError m), store = d, dispatched = [] \<rparr> \<and>
             send_status (response (sms_send D E d body)) = 500"
proof -
  from assms(3) obtain m where m: "invalid_phones (elements (phoneNumbers body)) = Inl (TypeError m)"
    using invalid_phones_throws by blast
  have t1: "truthy (phoneNumbers body)" using assms(1) by (rule isArray_truthy)
  have t2: "truthy (commandText body)" using assms(5,6) by (rule is_string_trim_truthy)
  have c: "call_trim ''commandText'' (commandText body) = Inr (js_trim (str_of (commandText body)))"
    using assms(5) by (rule call_trim_string)
  have "sms_send D E d body =
          \<lparr> response = SendInternal (TypeError m), store = d, dispatched = [] \<rparr>"
    unfolding sms_send_def by (simp add: assms t1 t2 c m)
  then show ?thesis by simp
qed

theorem non_string_phone_is_internal_error_witness:
  "isArray (phoneNumbers number_in_batch) \<and> elements (phoneNumbers number_in_batch) \<noteq> [] \<and>
   \<not> list_all is_string (elements (phoneNumbers number_in_batch)) \<and>
   truthy (modelId number_in_batch) \<and> is_string (commandText number_in_batch) \<and>
   js_trim (str_of (commandText number_in_batch)) \<noteq> [] \<and>
   send_status (response (sms_send demo_driver calm demo_db number_in_batch)) = 500 \<and>
   store (sms_send demo_driver calm demo_db number_in_batch) = demo_db \<and>
   dispatched (sms_send demo_driver calm demo_db number_in_batch) = []"
proof -
  have h: "isArray (phoneNumbers number_in_batch)" "elements (phoneNumbers number_in_batch) \<noteq> []"
    "\<not> list_all is_string (elements (phoneNumbers number_in_batch))"
    "truthy (modelId number_in_batch)" "is_string (commandText number_in_batch)"
    "js_trim (str_of (commandText number_in_batch)) \<noteq> []"
    by (simp_all add: number_in_batch_def js_def js_trim_def isWhiteSpace_def)
  from non_string_phone_is_internal_error [OF h, of demo_driver calm demo_db]
  obtain m where "sms_send demo_driver calm demo_db number_in_batch =
      \<lparr> response = SendInternal (TypeError m), store = demo_db, dispatched = [] \<rparr>"
    by blast
  with h show ?thesis by simp
qed

section \<open>Properties of the deletion of a model\<close>

text \<open>
  What the handler does when the store accepts the identifier as the integer
  \<open>k\<close>: a conflict while a command references the model, with the store
  unchanged; 404 when no row has the id; the row removed when neither a command
  nor a history row references it.
\<close>

lemma delete_model_conflict:
  assumes "bind_int D (PStr ident) = Some k"
    and "list_ex (\<lambda>c. c_model_id c = Some k) (commands d)"
  shows "delete_model D d ident =
           (DeleteConflict
              (''Cannot delete model. It has '' @
               decimal (length (filter (\<lambda>c. c_model_id c = Some k) (commands d))) @
               '' associated commands.'')
              ''Delete all commands first or use force delete.'', d)"
proof -
  from assms(2) have "filter (\<lambda>c. c_model_id c = Some k) (commands d) \<noteq> []"
    by (simp add: list_ex_iff filter_empty_conv)
  with assms(1) show ?thesis
    by (simp add: delete_model_def count_commands_def)
qed

lemma delete_model_absent:
  assumes "bind_int D (PStr ident) = Some k"
    and "\<not> list_ex (\<lambda>c. c_model_id c = Some k) (commands d)"
    and "\<not> list_ex (\<lambda>m. dm_id m = k) (device_models d)"
  shows "delete_model D d ident = (DeleteNotFound, d)"
proof -
  from assms(2) have c: "filter (\<lambda>c. c_model_id c = Some k) (commands d) = []"
    by (simp add: list_ex_iff filter_empty_conv)
  from assms(3) have m: "filter (\<lambda>m. dm_id m = k) (device_models d) = []"
    by (simp add: list_ex_iff filter_empty_conv)
  from assms(1) c m show ?thesis
    by (simp add: delete_model_def count_commands_def delete_device_model_def)
qed

lemma delete_model_unreferenced:
  assumes "bind_int D (PStr ident) = Some k"
    and "\<not> list_ex (\<lambda>c. c_model_id c = Some k) (commands d)"
    and "list_ex (\<lambda>m. dm_id m = k) (device_models d)"
    and "\<not> list_ex (\<lambda>h. h_model_id h = Some k) (sms_history d)"
  shows "\<exists>m. delete_model D d ident =
               (DeleteOk m, d \<lparr> device_models := filter (\<lambda>m. dm_id m \<noteq> k) (device_models d) \<rparr>) \<and>
             dm_id m = k"
proof -
  from assms(2) have c: "filter (\<lambda>c. c_model_id c = Some k) (commands d) = []"
    by (simp add: list_ex_iff filter_empty_conv)
  then have c': "filter (\<lambda>c. c_model_id c \<noteq> Some k) (commands d) = commands d"
    by (simp add: filter_empty_conv filter_id_conv)
  from assms(3) obtain m ms where m: "filter (\<lambda>m. dm_id m = k) (device_models d) = m # ms"
    by (cases "filter (\<lambda>m. dm_id m = k) (device_models d)")
       (auto simp: list_ex_iff filter_empty_conv)
  then have "m \<in> set (filter (\<lambda>m. dm_id m = k) (device_models d))" by simp
  then have k: "dm_id m = k" by simp
  from assms(1,4) c c' m k show ?thesis
    by (simp add: delete_model_def count_commands_def delete_device_model_def)
qed

text \<open>
  When no command references the model and a history row does, the store refuses
  the \<open>DELETE\<close> and the handler answers 500.
\<close>

lemma delete_model_history_blocks:
  assumes "bind_int D (PStr ident) = Some k"
    and "\<not> list_ex (\<lambda>c. c_model_id c = Some k) (commands d)"
    and "list_ex (\<lambda>m. dm_id m = k) (device_models d)"
    and "list_ex (\<lambda>h. h_model_id h = Some k) (sms_history d)"
  shows "delete_model D d ident = (DeleteInternal, d)"
proof -
  from assms(2) have c: "filter (\<lambda>c. c_model_id c = Some k) (commands d) = []"
    by (simp add: list_ex_iff filter_empty_conv)
  from assms(3) have m: "filter (\<lambda>m. dm_id m = k) (device_models d) \<noteq> []"
    by (simp add: list_ex_iff filter_empty_conv)
  from assms(1,4) c m show ?thesis
    by (simp add: delete_model_def count_commands_def delete_device_model_def)
qed

text \<open>
  Such a store arises from the send workflow: after a request to a model without
  commands has stored a row, the deletion of that model is refused.
\<close>

lemma stored_rows_model:
  "list_all (\<lambda>row. h_model_id row = Some k)
     (stored_rows D A seq k command nts modelName i ps)"
  by (induction ps arbitrary: seq i) (auto simp: stored_row_def Let_def)

lemma send_then_delete_is_refused:
  assumes wf: "well_formed body" and mr: "model_resolves D E d body"
    and valid: "list_all valid_phone (elements (phoneNumbers body))"
    and calm: "list_all (\<lambda>j. insert_fault (attempts E j) = None)
                 [0..<length (elements (phoneNumbers body))]"
    and k: "bind_int D (PJson (modelId body)) = Some k"
    and ident: "bind_int D (PStr ident) = Some k"
    and none: "\<not> list_ex (\<lambda>c. c_model_id c = Some k) (commands d)"
  shows "delete_model D (store (sms_send D E d body)) ident =
           (DeleteInternal, store (sms_send D E d body))"
proof -
  let ?ps = "elements (phoneNumbers body)"
  from sms_send_processed [OF wf mr valid] k obtain modelName others where
    out: "sms_send D E d body =
       (let rows = stored_rows D (attempts E) (sms_history_id_seq d) k
                     (str_of (commandText body)) (notes_val body) modelName 0 ?ps;
            st = \<lparr> ls_db = d \<lparr> sms_history := sms_history d @ rows,
                               sms_history_id_seq := sms_history_id_seq d + int (length rows) \<rparr>,
                   ls_results = map result_entry rows,
                   ls_errors = reported_errors (attempts E) 0 ?ps,
                   ls_dispatched = map (\<lambda>p. (js_trim (str_of p), str_of (commandText body), modelName)) ?ps,
                   ls_thrown = None \<rparr>
        in \<lparr> response = SendOk (send_report (length ?ps) st),
              store = ls_db st, dispatched = ls_dispatched st \<rparr>)"
    by auto
  define rows where "rows = stored_rows D (attempts E) (sms_history_id_seq d) k
                     (str_of (commandText body)) (notes_val body) modelName 0 ?ps"
  have st: "store (sms_send D E d body) =
              d \<lparr> sms_history := sms_history d @ rows,
                  sms_history_id_seq := sms_history_id_seq d + int (length rows) \<rparr>"
    by (simp add: out Let_def rows_def)
  from wf have ne: "?ps \<noteq> []" by (simp add: well_formed_def)
  have len: "length rows = length ?ps"
    unfolding rows_def using stored_all [OF calm] by blast
  with ne obtain row rest where rows: "rows = row # rest" by (cases rows) auto
  have "list_all (\<lambda>row. h_model_id row = Some k) rows"
    unfolding rows_def by (rule stored_rows_model)
  with rows have "h_model_id row = Some k" by simp
  with rows have hist: "list_ex (\<lambda>h. h_model_id h = Some k) (sms_history (store (sms_send D E d body)))"
    by (simp add: st)
  from mr k have "list_ex (\<lambda>m. dm_id m = k) (device_models d)"
    by (simp add: model_resolves_def)
  then have mod: "list_ex (\<lambda>m. dm_id m = k) (device_models (store (sms_send D E d body)))"
    by (simp add: st)
  from none have cmd: "\<not> list_ex (\<lambda>c. c_model_id c = Some k) (commands (store (sms_send D E d body)))"
    by (simp add: st)
  from ident cmd mod hist show ?thesis by (rule delete_model_history_blocks)
qed

text \<open>
  C6. The claim says that a model without commands is removed. On a store where
  the model GT06 (id 2) has no command and one row of \<open>sms_history\<close> references it,
  \<open>DELETE /api/models/2\<close> is answered with 500 and the model stays.
\<close>

theorem delete_model_with_history_fails:
  "list_ex (\<lambda>m. dm_id m = 2) (device_models used_model_db) \<and>
   length (filter (\<lambda>c. c_model_id c = Some 2) (commands used_model_db)) = 0 \<and>
   delete_model demo_driver used_model_db (js ''2'') = (DeleteInternal, used_model_db) \<and>
   delete_status (fst (delete_model demo_driver used_model_db (js ''2''))) = 500"
proof -
  have b: "bind_int demo_driver (PStr (js ''2'')) = Some 2"
    by (simp add: demo_driver_def parse_decimal_def js_def)
  have "delete_model demo_driver used_model_db (js ''2'') = (DeleteInternal, used_model_db)"
    by (rule delete_model_history_blocks [OF b]) (simp_all add: used_model_db_def)
  then show ?thesis by (simp add: used_model_db_def)
qed

section \<open>The construction of the predicate\<close>

lemma numbered_snoc: "numbered (ks @ [k]) = numbered ks @ [clause_for k (Suc (length ks))]"
  by (simp add: numbered_def enumerate_append_eq)

lemma length_numbered: "length (numbered ks) = length ks"
  by (simp add: numbered_def)

lemma and_then_Inr: "and_then (Inr x) g = g x"
  by (simp add: and_then_def)

lemma and_then_Inl: "and_then (Inl e) g = Inl e"
  by (simp add: and_then_def)

lemma blocks_after_throw:
  "foldl (\<lambda>r k. and_then r (g k)) (Inl e) ks = Inl e"
  by (induction ks) (simp_all add: and_then_Inl)

lemma add_condition_step:
  assumes "built f b ks"
  shows "case add_condition (clause_for k) (param_for k) (value_of f k) b of
           Inl e \<Rightarrow> supplied f k \<and> isl (param_for k (the (value_of f k)))
         | Inr b' \<Rightarrow>
             built f b' (ks @ (if supplied f k then [k] else [])) \<and>
             (supplied f k \<longrightarrow> \<not> isl (param_for k (the (value_of f k))))"
  using assms
  by (auto simp: add_condition_def supplied_def built_def numbered_snoc
           split: option.splits sum.splits)

lemma blocks_run:
  assumes "built f b pre"
  shows "case foldl (\<lambda>r k. and_then r (add_condition (clause_for k) (param_for k) (value_of f k)))
                (Inr b) ks of
           Inl e \<Rightarrow>
             \<not> list_all (\<lambda>k. \<not> isl (param_for k (the (value_of f k)))) (filter (supplied f) ks)
         | Inr b' \<Rightarrow>
             list_all (\<lambda>k. \<not> isl (param_for k (the (value_of f k)))) (filter (supplied f) ks) \<and>
             built f b' (pre @ filter (supplied f) ks)"
  using assms
proof (induction ks arbitrary: b pre)
  case Nil
  then show ?case by simp
next
  case (Cons k ks)
  note s = add_condition_step [OF Cons.prems, of k]
  show ?case
  proof (cases "add_condition (clause_for k) (param_for k) (value_of f k) b")
    case (Inl e)
    with s have "supplied f k" and "isl (param_for k (the (value_of f k)))" by simp_all
    then show ?thesis by (simp add: and_then_Inr Inl blocks_after_throw)
  next
    case (Inr b')
    with s have b': "built f b' (pre @ (if supplied f k then [k] else []))"
      and c: "supplied f k \<longrightarrow> \<not> isl (param_for k (the (value_of f k)))" by simp_all
    note ih = Cons.IH [OF b']
    show ?thesis
      using ih c by (cases "supplied f k") (simp_all add: and_then_Inr Inr split: sum.splits)
  qed
qed

lemma clause_for_eta:
  "StatusEq = clause_for Status" "ModelIdEq = clause_for ModelId"
  "PhoneILike = clause_for PhoneNumber" "SentAtGe = clause_for DateFrom"
  "SentAtLe = clause_for DateTo" "SearchILike = clause_for Search"
  by (rule ext, simp)+

lemma param_for_eta:
  "raw_value = param_for Status" "raw_value = param_for ModelId"
  "like_pattern = param_for PhoneNumber" "raw_value = param_for DateFrom"
  "raw_value = param_for DateTo" "like_pattern = param_for Search"
  by (rule ext, simp)+

lemma build_conditions_blocks:
  "build_conditions f =
     foldl (\<lambda>r k. and_then r (add_condition (clause_for k) (param_for k) (value_of f k)))
       (Inr \<lparr> paramCount = 0, conditions = [], params = [] \<rparr>) all_kinds"
  unfolding build_conditions_def all_kinds_def
  by (simp only: foldl.simps and_then_Inr clause_for_eta [symmetric] param_for_eta [symmetric]
        value_of.simps)

lemma supplied_kinds_filter: "supplied_kinds f = filter (supplied f) all_kinds"
  by (simp only: supplied_kinds_def all_kinds_def)

lemma build_conditions_cases:
  "case build_conditions f of
     Inl e \<Rightarrow> \<not> convertible f
   | Inr b \<Rightarrow> convertible f \<and> built f b (supplied_kinds f)"
proof -
  have "built f \<lparr> paramCount = 0, conditions = [], params = [] \<rparr> []"
    by (simp add: built_def numbered_def)
  from blocks_run [OF this, of all_kinds]
  show ?thesis
    by (simp only: build_conditions_blocks [symmetric] supplied_kinds_filter [symmetric]
          convertible_def [symmetric] append_Nil)
qed

lemma build_conditions_Inr:
  assumes "build_conditions f = Inr b"
  shows "convertible f" and "built f b (supplied_kinds f)"
  using build_conditions_cases [of f] assms by simp_all

lemma build_conditions_Inl:
  assumes "build_conditions f = Inl e"
  shows "\<not> convertible f"
  using build_conditions_cases [of f] assms by simp

lemma placeholder_clause_for: "placeholder (clause_for k n) = n"
  by (cases k) simp_all

lemma placeholder_numbered: "map placeholder (numbered ks) = [1..<Suc (length ks)]"
proof -
  have "map placeholder (numbered ks) = map (\<lambda>x. Suc (fst x)) (enumerate 0 ks)"
    by (simp add: numbered_def placeholder_clause_for case_prod_unfold comp_def)
  also have "\<dots> = map Suc (map fst (enumerate 0 ks))" by (simp only: map_map comp_def)
  also have "\<dots> = map Suc [0..<length ks]" by (simp only: map_fst_enumerate add_0)
  also have "\<dots> = [1..<Suc (length ks)]" by (simp only: map_Suc_upt One_nat_def)
  finally show ?thesis .
qed

lemma built_length:
  assumes "built f b ks"
  shows "length (params b) = length ks"
proof -
  from assms have "map Inr (params b) = map (\<lambda>k. param_for k (the (value_of f k))) ks"
    by (simp add: built_def)
  from arg_cong [OF this, of length] show ?thesis by simp
qed

lemma paramCount_built:
  assumes "build_conditions f = Inr b"
  shows "paramCount b = length (params b)"
  using build_conditions_Inr(2) [OF assms] built_length [of f b "supplied_kinds f"]
  by (simp add: built_def)

lemma placeholders_built:
  assumes "build_conditions f = Inr b"
  shows "map placeholder (conditions b) = [1..<Suc (length (params b))]"
proof -
  note bl = build_conditions_Inr(2) [OF assms]
  from bl have c: "conditions b = numbered (supplied_kinds f)" by (simp add: built_def)
  show ?thesis by (simp only: c built_length [OF bl] placeholder_numbered)
qed

subsection \<open>The handler's text and parameters against the specification's\<close>

lemma given_supplied: "supplied f k = given (value_of f k)"
  by (cases "value_of f k" rule: given.cases) (simp_all add: supplied_def)

lemma supplied_kinds_given: "supplied_kinds f = filters_given f"
  by (simp add: supplied_kinds_def filters_given_def given_supplied)

lemma length_supplied_kinds: "length (supplied_kinds f) \<le> 6"
proof -
  have "length (filter (supplied f) all_kinds) \<le> length all_kinds" by (rule length_filter_le)
  then show ?thesis by (simp add: supplied_kinds_filter all_kinds_def)
qed

lemma decimal_positional:
  assumes "1 \<le> n" and "n \<le> 6"
  shows "CHR ''$'' # decimal n = positional n"
proof -
  from assms have "n = 1 \<or> n = 2 \<or> n = 3 \<or> n = 4 \<or> n = 5 \<or> n = 6" by arith
  then show ?thesis
    by (elim disjE) (simp_all add: positional_def digit_char_def)
qed

lemma clause_sql_text:
  assumes "1 \<le> n" and "n \<le> 6"
  shows "clause_sql (clause_for k n) = clause_text k n"
  using decimal_positional [OF assms, symmetric]
  by (cases k) simp_all

lemma clause_sql_numbered_aux:
  "n + length ks \<le> 6 \<Longrightarrow>
     map clause_sql (map (\<lambda>(i, k). clause_for k (Suc i)) (enumerate n ks)) =
     clause_texts (Suc n) ks"
proof (induction ks arbitrary: n)
  case Nil
  then show ?case by simp
next
  case (Cons k ks)
  from Cons.prems have "1 \<le> Suc n" and "Suc n \<le> 6" by simp_all
  then have here: "clause_sql (clause_for k (Suc n)) = clause_text k (Suc n)"
    by (rule clause_sql_text)
  from Cons.prems have "Suc n + length ks \<le> 6" by simp
  then have rest: "map clause_sql (map (\<lambda>(i, k). clause_for k (Suc i)) (enumerate (Suc n) ks)) =
                   clause_texts (Suc (Suc n)) ks"
    by (rule Cons.IH)
  show ?case using here rest by simp
qed

lemma clause_sql_numbered:
  "length ks \<le> 6 \<Longrightarrow> map clause_sql (numbered ks) = clause_texts 1 ks"
  using clause_sql_numbered_aux [of 0 ks] by (simp add: numbered_def)

lemma foldl_join:
  "foldl (\<lambda>acc y. acc @ sep @ y) a (x # xs) = a @ sep @ join sep (x # xs)"
proof (induction xs arbitrary: a x)
  case Nil
  then show ?case by simp
next
  case (Cons y ys)
  from Cons.IH [of "a @ sep @ x" y] show ?case by simp
qed

lemma join_foldl:
  "join sep xs = (case xs of [] \<Rightarrow> [] | x # rest \<Rightarrow> foldl (\<lambda>acc y. acc @ sep @ y) x rest)"
proof (cases xs)
  case Nil
  then show ?thesis by simp
next
  case outer: (Cons x rest)
  show ?thesis
  proof (cases rest)
    case Nil
    with outer show ?thesis by simp
  next
    case (Cons y ys)
    with outer foldl_join [of sep x y ys] show ?thesis by simp
  qed
qed

lemma join_conjunction: "join '' AND '' cs = conjunction cs"
  by (simp only: join_foldl [of "'' AND ''" cs] conjunction_def)

lemma join_comma_separated: "join (js '','') ts = comma_separated ts"
  by (simp only: join_foldl [of "js '',''" ts] comma_separated_def)

lemma first_error_map:
  assumes "\<forall>x \<in> set xs. T x = (case Q x of Inl e \<Rightarrow> None | Inr s \<Rightarrow> Some s)"
  shows "case first_error (map Q xs) of
           Inl e \<Rightarrow> \<not> list_all (\<lambda>x. T x \<noteq> None) xs
         | Inr ss \<Rightarrow> list_all (\<lambda>x. T x \<noteq> None) xs \<and> ss = map (\<lambda>x. the (T x)) xs"
  using assms
  by (induction xs) (auto split: sum.splits)

lemma own_key: "List.member (map fst kvs) k = (map_of kvs k \<noteq> None)"
  by (simp add: map_of_eq_None_iff)

lemma text_of_conversion:
  "text_of v = (case qval_to_string v of Inl e \<Rightarrow> None | Inr s \<Rightarrow> Some s)"
proof (induction v rule: qval_to_string.induct)
  case (1 s)
  show ?case by simp
next
  case (2 xs)
  then have "\<forall>x \<in> set xs. text_of x = (case qval_to_string x of Inl e \<Rightarrow> None | Inr s \<Rightarrow> Some s)"
    by simp
  from first_error_map [of xs text_of qval_to_string, OF this]
  show ?case
    by (cases "first_error (map qval_to_string xs)") (simp_all add: join_comma_separated)
next
  case (3 kvs)
  show ?case using own_key [of kvs "js ''toString''"] by auto
qed

lemma wrapped_like_pattern:
  "(case like_pattern v of Inl e \<Rightarrow> None | Inr p \<Rightarrow> Some p) = wrapped (Some v)"
  by (simp add: like_pattern_def wrapped_def text_of_conversion split: sum.splits)

lemma parameter_of_param_for:
  assumes "supplied f k"
  shows "parameter_of f k =
           (case param_for k (the (value_of f k)) of Inl e \<Rightarrow> None | Inr p \<Rightarrow> Some p)"
proof -
  from assms obtain v where v: "value_of f k = Some v"
    by (auto simp: supplied_def split: option.splits)
  then show ?thesis
    by (cases k) (simp_all add: raw_value_def wrapped_like_pattern)
qed

lemma convertible_parameters:
  "convertible f = list_all (\<lambda>k. parameter_of f k \<noteq> None) (filters_given f)"
proof -
  have "\<And>k. k \<in> set (supplied_kinds f) \<Longrightarrow>
          (\<not> isl (param_for k (the (value_of f k)))) = (parameter_of f k \<noteq> None)"
  proof -
    fix k
    assume "k \<in> set (supplied_kinds f)"
    then have "supplied f k" by (simp add: supplied_kinds_filter)
    from parameter_of_param_for [OF this]
    show "(\<not> isl (param_for k (the (value_of f k)))) = (parameter_of f k \<noteq> None)"
      by (cases "param_for k (the (value_of f k))") simp_all
  qed
  then have "list_all (\<lambda>k. \<not> isl (param_for k (the (value_of f k)))) (supplied_kinds f) =
             list_all (\<lambda>k. parameter_of f k \<noteq> None) (supplied_kinds f)"
    by (simp add: list_all_iff)
  then show ?thesis by (simp only: convertible_def supplied_kinds_given)
qed

lemma built_parameters:
  assumes "built f b (supplied_kinds f)"
  shows "map Some (params b) = map (parameter_of f) (filters_given f)"
proof -
  from assms have p: "map Inr (params b) =
                      map (\<lambda>k. param_for k (the (value_of f k))) (supplied_kinds f)"
    by (simp add: built_def)
  from arg_cong [OF p, of "map (\<lambda>r. case r of Inl e \<Rightarrow> None | Inr p \<Rightarrow> Some p)"]
  have "map Some (params b) =
             map (\<lambda>k. case param_for k (the (value_of f k)) of Inl e \<Rightarrow> None | Inr p \<Rightarrow> Some p)
               (supplied_kinds f)"
    by (simp add: comp_def)
  also have "\<dots> = map (parameter_of f) (supplied_kinds f)"
    by (rule map_cong) (simp_all add: supplied_kinds_filter parameter_of_param_for)
  finally show ?thesis by (simp only: supplied_kinds_given)
qed

text \<open>
  C3. For every combination of filters: when the conversion of a given phone or
  search value throws, no statement is built (and only then: the specification's
  parameters do not all exist). Otherwise the \<open>WHERE\<close> text is \<open>WHERE\<close> followed
  by the clauses of exactly the given filters, in the fixed order, separated by
  \<open>AND\<close>, and it is empty when no filter is given; the text of each clause is
  the specification's, with the positional placeholder of its rank, so the text
  depends on which filters are given and never on a value; the parameters are
  the values of the given filters in the same order, the phone and search values
  between two \<open>%\<close>; and the placeholder of the i-th clause is i, the position of
  its value in the parameter list.
\<close>

theorem where_clause_is_conjunction_of_supplied:
  "case build_conditions f of
     Inl e \<Rightarrow> \<not> list_all (\<lambda>k. parameter_of f k \<noteq> None) (filters_given f)
   | Inr b \<Rightarrow>
       whereClause b = where_of (filters_given f) \<and>
       map clause_sql (conditions b) = clause_texts 1 (filters_given f) \<and>
       map Some (params b) = map (parameter_of f) (filters_given f) \<and>
       paramCount b = length (params b) \<and>
       map placeholder (conditions b) = [1..<Suc (length (params b))]"
proof (cases "build_conditions f")
  case (Inl e)
  from build_conditions_Inl [OF Inl] have "\<not> convertible f" .
  then show ?thesis by (simp add: Inl convertible_parameters)
next
  case (Inr b)
  note bl = build_conditions_Inr(2) [OF Inr]
  from bl have c: "conditions b = numbered (supplied_kinds f)" by (simp add: built_def)
  have t: "map clause_sql (conditions b) = clause_texts 1 (filters_given f)"
    unfolding c using clause_sql_numbered [OF length_supplied_kinds [of f]]
    by (simp only: supplied_kinds_given)
  have "length (conditions b) = length (filters_given f)"
    by (simp only: c length_numbered supplied_kinds_given)
  then have e: "(conditions b = []) = (filters_given f = [])"
    by (cases "conditions b"; cases "filters_given f") simp_all
  have w: "whereClause b = where_of (filters_given f)"
    by (simp add: whereClause_def where_of_def t e join_conjunction)
  have p: "map Some (params b) = map (parameter_of f) (filters_given f)"
    using bl by (rule built_parameters)
  have n: "paramCount b = length (params b)" using Inr by (rule paramCount_built)
  have i: "map placeholder (conditions b) = [1..<Suc (length (params b))]"
    using Inr by (rule placeholders_built)
  from w t p n i show ?thesis by (simp only: Inr sum.case simp_thms)
qed

text \<open>
  C3 at a query whose search value would change the statement if it were
  interpolated: the statement is the fixed text and the value is a parameter.
\<close>

theorem where_clause_is_conjunction_of_supplied_witness:
  "\<exists>b. build_conditions injection_filters = Inr b \<and>
       whereClause b =
         ''WHERE h.model_id = $1 AND h.sent_at >= $2 AND (h.command_text ILIKE $3 OR h.notes ILIKE $3 OR m.name ILIKE $3)'' \<and>
       params b =
         [PQuery (QStr (js ''2'')), PQuery (QStr (js ''2024-01-01'')),
          PStr (js ''%x' OR 1=1 --%'')] \<and>
       paramCount b = 3 \<and>
       map placeholder (conditions b) = [1, 2, 3]"
proof (cases "build_conditions injection_filters")
  case (Inl e)
  with where_clause_is_conjunction_of_supplied [of injection_filters]
  have "\<not> list_all (\<lambda>k. parameter_of injection_filters k \<noteq> None)
            (filters_given injection_filters)"
    by simp
  then show ?thesis
    by (simp add: injection_filters_def no_filters_def filters_given_def wrapped_def js_def)
next
  case (Inr b)
  with where_clause_is_conjunction_of_supplied [of injection_filters]
  have w: "whereClause b = where_of (filters_given injection_filters)"
    and p: "map Some (params b) =
            map (parameter_of injection_filters) (filters_given injection_filters)"
    and n: "paramCount b = length (params b)"
    and i: "map placeholder (conditions b) = [1..<Suc (length (params b))]"
    by simp_all
  have g: "filters_given injection_filters = [ModelId, DateFrom, Search]"
    by (simp add: injection_filters_def no_filters_def filters_given_def js_def)
  have w': "whereClause b =
         ''WHERE h.model_id = $1 AND h.sent_at >= $2 AND (h.command_text ILIKE $3 OR h.notes ILIKE $3 OR m.name ILIKE $3)''"
    unfolding w g by (simp add: where_of_def conjunction_def positional_def)
  have "map Some (params b) =
          map Some [PQuery (QStr (js ''2'')), PQuery (QStr (js ''2024-01-01'')),
                    PStr (js ''%x' OR 1=1 --%'')]"
    unfolding p g by (simp add: injection_filters_def no_filters_def wrapped_def js_def)
  then have p': "params b =
          [PQuery (QStr (js ''2'')), PQuery (QStr (js ''2024-01-01'')),
           PStr (js ''%x' OR 1=1 --%'')]"
    by (simp only: inj_map_eq_map [OF inj_Some])
  have n': "paramCount b = 3" by (simp add: n p')
  have i': "map placeholder (conditions b) = [1, 2, 3]"
    unfolding i by (simp add: p' upt_rec)
  from Inr w' p' n' i' show ?thesis by simp
qed

text \<open>
  A search value with a key \<open>toString\<close> of its own, \<open>?search[toString]=x\<close>: the
  template literal throws, no statement is built and the handler answers 500.
\<close>

lemma unconvertible_search_throws:
  "build_conditions unconvertible_search = Inl cannot_convert"
  by (simp add: build_conditions_def add_condition_def unconvertible_search_def no_filters_def
        and_then_def raw_value_def like_pattern_def js_def)

lemma unconvertible_search_is_internal_error:
  "sms_history_get D d \<lparr> q_page = None, q_limit = None, q_filters = unconvertible_search \<rparr> =
     HistoryInternal"
  by (simp add: sms_history_get_def unconvertible_search_throws)

section \<open>The rows and the count of the history query\<close>

lemma bind_clause_numbered:
  "i < length ps \<Longrightarrow> Inr (ps ! i) = param_for k v \<Longrightarrow>
     bind_clause D ps (clause_for k (Suc i)) = bind_kind D k v"
  by (cases k) (auto simp: raw_value_def like_pattern_def split: sum.splits)

lemma bind_all_numbered_aux:
  assumes "length pre = n"
    and "map Inr qs = map (\<lambda>k. param_for k (V k)) ks"
  shows "bind_all D (pre @ qs @ post)
           (map (\<lambda>(i, k). clause_for k (Suc i)) (enumerate n ks)) =
         (if list_all (\<lambda>k. bind_kind D k (V k) \<noteq> None) ks
          then Some (map (\<lambda>k. the (bind_kind D k (V k))) ks) else None)"
  using assms
proof (induction ks arbitrary: pre n qs)
  case Nil
  then show ?case by simp
next
  case (Cons k ks)
  from Cons.prems(2) obtain p ps where qs: "qs = p # ps"
    and p: "Inr p = param_for k (V k)"
    and ps: "map Inr ps = map (\<lambda>k. param_for k (V k)) ks"
    by (cases qs) auto
  have here: "bind_clause D (pre @ qs @ post) (clause_for k (Suc n)) = bind_kind D k (V k)"
    by (rule bind_clause_numbered) (simp_all add: Cons.prems(1) qs p nth_append)
  have rest: "bind_all D ((pre @ [p]) @ ps @ post)
           (map (\<lambda>(i, k). clause_for k (Suc i)) (enumerate (Suc n) ks)) =
         (if list_all (\<lambda>k. bind_kind D k (V k) \<noteq> None) ks
          then Some (map (\<lambda>k. the (bind_kind D k (V k))) ks) else None)"
    by (rule Cons.IH) (simp_all add: Cons.prems(1) ps)
  have same: "(pre @ [p]) @ ps @ post = pre @ qs @ post" by (simp add: qs)
  show ?case
    using here rest unfolding same
    by (cases "bind_kind D k (V k)") simp_all
qed

lemma bind_all_built:
  assumes "build_conditions f = Inr b"
  shows "bind_all D (params b @ post) (conditions b) =
     (if bindable D f
      then Some (map (\<lambda>k. the (bind_kind D k (the (value_of f k)))) (supplied_kinds f))
      else None)"
proof -
  from build_conditions_Inr(2) [OF assms]
  have c: "conditions b = numbered (supplied_kinds f)"
    and p: "map Inr (params b) = map (\<lambda>k. param_for k (the (value_of f k))) (supplied_kinds f)"
    by (simp_all add: built_def)
  have "length ([] :: param list) = 0" by simp
  from bind_all_numbered_aux [OF this p, of D post]
  show ?thesis
    unfolding c numbered_def bindable_def by simp
qed

lemma bindable_convertible:
  assumes "bindable D f"
  shows "convertible f"
proof -
  have "\<And>k v. bind_kind D k v \<noteq> None \<Longrightarrow> \<not> isl (param_for k v)"
  proof -
    fix k v
    assume "bind_kind D k v \<noteq> None"
    then show "\<not> isl (param_for k v)"
      by (cases k) (auto simp: raw_value_def like_pattern_def split: sum.splits)
  qed
  with assms show ?thesis
    unfolding bindable_def convertible_def list_all_iff by blast
qed

lemma satisfies_bound_list:
  "list_all (\<lambda>k. bind_kind D k (V k) \<noteq> None) ks \<Longrightarrow>
     list_all (satisfies D x) (map (\<lambda>k. the (bind_kind D k (V k))) ks) =
     list_all (\<lambda>k. case bind_kind D k (V k) of None \<Rightarrow> False | Some b \<Rightarrow> satisfies D x b) ks"
  by (induction ks) auto

lemma select_matching_built:
  assumes "build_conditions f = Inr b"
  shows "select_matching D d (conditions b) (params b @ post) =
     (if bindable D f then Inr (filter (passes D f) (left_join d)) else Inl invalid_parameter)"
proof (cases "bindable D f")
  case True
  then have s: "\<And>x. list_all (satisfies D x)
                  (map (\<lambda>k. the (bind_kind D k (the (value_of f k)))) (supplied_kinds f)) =
                passes D f x"
    unfolding bindable_def passes_def by (rule satisfies_bound_list)
  show ?thesis
    by (simp add: select_matching_def bind_all_built [OF assms] True s)
next
  case False
  then show ?thesis by (simp add: select_matching_def bind_all_built [OF assms])
qed

lemma parameters_fit_count: "parameters_fit [1..<Suc (length ps)] ps"
  by (auto simp: parameters_fit_def list_all_iff)

lemma parameters_fit_select:
  "parameters_fit ([1..<Suc (length ps)] @ [length ps + 1, length ps + 2]) (ps @ [a, b])"
  by (auto simp: parameters_fit_def list_all_iff)

lemma select_history_built:
  assumes "build_conditions f = Inr b"
  shows "select_history D d (conditions b) (paramCount b + 1) (paramCount b + 2)
     (params b @ [PNum l, PNum off]) =
   (if \<not> bindable D f then Inl invalid_parameter
    else if \<not> (- (2 ^ 63) \<le> l \<and> l < 2 ^ 63 \<and> - (2 ^ 63) \<le> off \<and> off < 2 ^ 63)
      then Inl invalid_parameter
    else if l < 0 then Inl (StoreError ''2201W'' (js ''LIMIT must not be negative''))
    else if off < 0 then Inl (StoreError ''2201X'' (js ''OFFSET must not be negative''))
    else Inr (map item_of (take (nat l) (drop (nat off)
                (sort_key (\<lambda>x. - h_sent_at (fst x)) (matching D d f))))))"
proof -
  note pc = paramCount_built [OF assms]
  have fit: "parameters_fit (map placeholder (conditions b) @
               [paramCount b + 1, paramCount b + 2]) (params b @ [PNum l, PNum off])"
    by (simp only: placeholders_built [OF assms] pc parameters_fit_select)
  have li: "(params b @ [PNum l, PNum off]) ! (paramCount b + 1 - 1) = PNum l"
    by (simp add: pc nth_append)
  have oi: "(params b @ [PNum l, PNum off]) ! (paramCount b + 2 - 1) = PNum off"
    by (simp add: pc nth_append)
  show ?thesis
    unfolding select_history_def
    by (simp only: fit li oi select_matching_built [OF assms]) (simp add: matching_def)
qed

lemma count_history_built:
  assumes "build_conditions f = Inr b"
  shows "count_history D d (conditions b) (take (paramCount b) (params b @ post)) =
   (if bindable D f then Inr (length (matching D d f)) else Inl invalid_parameter)"
proof -
  have t: "take (paramCount b) (params b @ post) = params b"
    by (simp add: paramCount_built [OF assms])
  have fit: "parameters_fit (map placeholder (conditions b)) (params b)"
    by (simp only: placeholders_built [OF assms] parameters_fit_count)
  show ?thesis
    unfolding count_history_def t
    using select_matching_built [OF assms, of D d "[]"]
    by (simp add: fit matching_def)
qed

text \<open>
  The handler in closed form: it answers 200 exactly when every supplied filter
  converts, and the limit and the offset are not negative and fit the store's
  64-bit integer.
\<close>

lemma sms_history_get_eq:
  "sms_history_get D d q =
     (if bindable D (q_filters q) \<and> 0 \<le> limit_of q \<and> limit_of q < 2 ^ 63 \<and>
         0 \<le> (page_of q - 1) * limit_of q \<and> (page_of q - 1) * limit_of q < 2 ^ 63
      then HistoryOk
             \<lparr> hk_data = map item_of
                            (take (nat (limit_of q))
                               (drop (nat ((page_of q - 1) * limit_of q))
                                  (sort_key (\<lambda>x. - h_sent_at (fst x))
                                     (matching D d (q_filters q))))),
               hk_pagination =
                 \<lparr> pg_page = page_of q,
                   pg_limit = limit_of q,
                   pg_total = length (matching D d (q_filters q)),
                   pg_pages =
                     (if limit_of q = 0 then None
                      else Some \<lceil>rat_of_int (int (length (matching D d (q_filters q)))) /
                                 rat_of_int (limit_of q)\<rceil>),
                   hasNext = (page_of q * limit_of q < int (length (matching D d (q_filters q)))),
                   hasPrev = (page_of q > 1) \<rparr>,
               hk_filters = q_filters q \<rparr>
      else HistoryInternal)"
proof (cases "build_conditions (q_filters q)")
  case (Inl e)
  from build_conditions_Inl [OF Inl] bindable_convertible [of D "q_filters q"]
  have "\<not> bindable D (q_filters q)" by blast
  then show ?thesis
    by (simp add: sms_history_get_def Let_def Inl)
next
  case (Inr b)
  show ?thesis
    unfolding sms_history_get_def Let_def page_of_def [symmetric] limit_of_def [symmetric]
    by (simp only: Inr sum.case select_history_built [OF Inr] count_history_built [OF Inr]) auto
qed

lemma history_get_succeeds:
  assumes "bindable D (q_filters q)" and "0 \<le> limit_of q" and "1 \<le> page_of q"
    and "limit_of q < 2 ^ 63" and "(page_of q - 1) * limit_of q < 2 ^ 63"
  shows "\<exists>r. sms_history_get D d q = HistoryOk r"
proof -
  from assms(2,3) have "0 \<le> (page_of q - 1) * limit_of q" by simp
  with assms(1,2,4,5) show ?thesis by (simp add: sms_history_get_eq)
qed

lemma history_ok_total:
  assumes "sms_history_get D d q = HistoryOk r"
  shows "pg_total (hk_pagination r) = length (matching D d (q_filters q))"
  using assms by (simp add: sms_history_get_eq split: if_splits) auto

lemma satisfies_holds: "satisfies D x b = holds D (item_of x) b"
  by (cases x; cases b) (auto simp: item_of_def split: option.splits)

lemma passes_item: "passes D f x = item_passes D f (item_of x)"
  by (simp add: passes_def item_passes_def satisfies_holds cong: option.case_cong)

lemma all_kinds_complete: "k \<in> set all_kinds"
  by (cases k) (simp_all add: all_kinds_def)

lemma supplied_kinds_set: "set (supplied_kinds f) = {k. supplied f k}"
proof -
  have "supplied_kinds f = filter (supplied f) all_kinds"
    by (simp only: supplied_kinds_def all_kinds_def)
  then show ?thesis by (simp add: all_kinds_complete)
qed

lemma extends_passes:
  assumes "extends f f'" and "passes D f' x"
  shows "passes D f x"
proof -
  have "case bind_kind D k (the (value_of f k)) of None \<Rightarrow> False | Some b \<Rightarrow> satisfies D x b"
    if k: "supplied f k" for k
  proof -
    from assms(1) k all_kinds_complete [of k] have v: "value_of f' k = value_of f k"
      by (auto simp: extends_def list_all_iff)
    with k have "supplied f' k" by (simp add: supplied_def)
    with assms(2) have "case bind_kind D k (the (value_of f' k)) of
                          None \<Rightarrow> False | Some b \<Rightarrow> satisfies D x b"
      by (simp add: passes_def list_all_iff supplied_kinds_set)
    with v show ?thesis by simp
  qed
  then show ?thesis by (simp add: passes_def list_all_iff supplied_kinds_set)
qed

lemma length_filter_implies:
  "(\<And>x. Q x \<Longrightarrow> P x) \<Longrightarrow> length (filter Q xs) \<le> length (filter P xs)"
  by (induction xs) auto

lemma matching_extends:
  "extends f f' \<Longrightarrow> length (matching D d f') \<le> length (matching D d f)"
  unfolding matching_def by (rule length_filter_implies) (rule extends_passes)

lemma filter_key_at_most_one:
  "distinct (map g xs) \<Longrightarrow> length (filter (\<lambda>x. g x = a) xs) \<le> 1"
proof (induction xs)
  case Nil
  then show ?case by simp
next
  case (Cons x xs)
  show ?case
  proof (cases "g x = a")
    case True
    with Cons.prems have "a \<notin> g ` set xs" by simp
    then have "filter (\<lambda>y. g y = a) xs = []"
      by (auto simp: filter_empty_conv)
    with True show ?thesis by simp
  next
    case False
    with Cons show ?thesis by simp
  qed
qed

lemma length_left_join:
  assumes "distinct (map dm_id (device_models d))"
  shows "length (left_join d) = length (sms_history d)"
proof -
  have one: "length (case filter (\<lambda>m. Some (dm_id m) = h_model_id h) (device_models d) of
                       [] \<Rightarrow> [(h, None)]
                     | ms \<Rightarrow> map (\<lambda>m. (h, Some m)) ms) = 1" for h
  proof (cases "h_model_id h")
    case None
    then show ?thesis by simp
  next
    case (Some a)
    have "length (filter (\<lambda>m. dm_id m = a) (device_models d)) \<le> 1"
      using assms by (rule filter_key_at_most_one)
    then show ?thesis
      by (cases "filter (\<lambda>m. dm_id m = a) (device_models d)") (simp_all add: Some)
  qed
  have "length (concat (map G hs)) = length hs" if "\<And>h. length (G h) = 1" for G :: "sms_history_row \<Rightarrow> (sms_history_row \<times> device_model option) list" and hs
    using that by (induction hs) simp_all
  from this [of _ "sms_history d", OF one] show ?thesis by (simp add: left_join_def)
qed

lemma matching_no_filters:
  "supplied_kinds f = [] \<Longrightarrow> matching D d f = left_join d"
  by (simp add: matching_def passes_def)

lemma history_data_passes_aux:
  "list_all (item_passes D f)
     (map item_of (take n (drop m (sort_key (\<lambda>x. - h_sent_at (fst x)) (matching D d f)))))"
proof -
  have "set (take n (drop m (sort_key (\<lambda>x. - h_sent_at (fst x)) (matching D d f)))) \<subseteq>
          set (matching D d f)"
    using set_take_subset [of n "drop m (sort_key (\<lambda>x. - h_sent_at (fst x)) (matching D d f))"]
      set_drop_subset [of m "sort_key (\<lambda>x. - h_sent_at (fst x)) (matching D d f)"]
    by auto
  then show ?thesis
    by (auto simp: list_all_iff matching_def passes_item)
qed

lemma history_data_sorted_aux:
  "sorted_wrt (\<lambda>a b. h_sent_at (hi_row a) \<ge> h_sent_at (hi_row b))
     (map item_of (take n (drop m (sort_key (\<lambda>x. - h_sent_at (fst x)) xs))))"
proof -
  have "sorted (map (\<lambda>x. - h_sent_at (fst x)) (sort_key (\<lambda>x. - h_sent_at (fst x)) xs))"
    by (rule sorted_sort_key)
  then have "sorted_wrt (\<lambda>a b. h_sent_at (fst a) \<ge> h_sent_at (fst b))
               (sort_key (\<lambda>x. - h_sent_at (fst x)) xs)"
    by (simp add: sorted_map)
  then have "sorted_wrt (\<lambda>a b. h_sent_at (fst a) \<ge> h_sent_at (fst b))
               (take n (drop m (sort_key (\<lambda>x. - h_sent_at (fst x)) xs)))"
    by (intro sorted_wrt_take sorted_wrt_drop)
  then show ?thesis by (simp add: sorted_wrt_map item_of_def)
qed

lemma item_passes_status:
  assumes "f_status f = Some (QStr s)" and "s \<noteq> []" and "item_passes D f it"
  shows "h_status (hi_row it) = Some s"
proof -
  from assms(1,2) have "supplied f Status" by (simp add: supplied_def)
  then have "Status \<in> set (supplied_kinds f)" by (simp add: supplied_kinds_set)
  with assms(3) have "case bind_kind D Status (the (value_of f Status)) of
                        None \<Rightarrow> False | Some b \<Rightarrow> holds D it b"
    unfolding item_passes_def list_all_iff by blast
  with assms(1) show ?thesis by simp
qed

lemma first_page_ok: "\<exists>r. sms_history_get demo_driver history_db first_page = HistoryOk r"
  by (rule history_get_succeeds)
     (simp_all add: first_page_def no_filters_def bindable_def supplied_kinds_def supplied_def
        limit_of_def page_of_def)

lemma failed_page_2_ok: "\<exists>r. sms_history_get demo_driver history_db failed_page_2 = HistoryOk r"
  by (rule history_get_succeeds)
     (simp_all add: failed_page_2_def no_filters_def bindable_def supplied_kinds_def supplied_def
        limit_of_def page_of_def)

lemma failed_total: "length (matching demo_driver history_db (q_filters failed_page_2)) = 2"
  by (simp add: matching_def left_join_def history_db_def failed_page_2_def no_filters_def
        passes_def supplied_kinds_def supplied_def js_def)

section \<open>Properties of the history query\<close>

text \<open>
  C4. For every store and every request answered with 200, the total is the
  number of joined rows that satisfy the predicate of the supplied filters, and
  the returned rows are those same rows, ordered and paginated: one predicate, no
  pagination in the count. With no filter supplied (and the ids of
  \<open>device_models\<close> distinct, as its primary key makes them) the total is the
  number of rows of \<open>sms_history\<close>. Supplying further filters never increases
  the total.
\<close>

theorem history_total_count:
  assumes "sms_history_get D d q = HistoryOk r"
  shows "pg_total (hk_pagination r) = length (matching D d (q_filters q)) \<and>
         hk_data r = map item_of
                       (take (nat (limit_of q))
                          (drop (nat ((page_of q - 1) * limit_of q))
                             (sort_key (\<lambda>x. - h_sent_at (fst x))
                                (matching D d (q_filters q))))) \<and>
         (supplied_kinds (q_filters q) = [] \<and> distinct (map dm_id (device_models d)) \<longrightarrow>
            pg_total (hk_pagination r) = length (sms_history d)) \<and>
         (\<forall>q' r'. extends (q_filters q) (q_filters q') \<and>
                  sms_history_get D d q' = HistoryOk r' \<longrightarrow>
                  pg_total (hk_pagination r') \<le> pg_total (hk_pagination r))"
proof -
  have t: "pg_total (hk_pagination r) = length (matching D d (q_filters q))"
    using assms by (rule history_ok_total)
  have dt: "hk_data r = map item_of
                       (take (nat (limit_of q))
                          (drop (nat ((page_of q - 1) * limit_of q))
                             (sort_key (\<lambda>x. - h_sent_at (fst x))
                                (matching D d (q_filters q)))))"
    using assms by (simp add: sms_history_get_eq split: if_splits) auto
  have n: "supplied_kinds (q_filters q) = [] \<and> distinct (map dm_id (device_models d)) \<longrightarrow>
            pg_total (hk_pagination r) = length (sms_history d)"
    by (simp add: t matching_no_filters length_left_join)
  have m: "\<forall>q' r'. extends (q_filters q) (q_filters q') \<and>
                  sms_history_get D d q' = HistoryOk r' \<longrightarrow>
                  pg_total (hk_pagination r') \<le> pg_total (hk_pagination r)"
  proof (intro allI impI, elim conjE)
    fix q' r'
    assume e: "extends (q_filters q) (q_filters q')"
      and ok: "sms_history_get D d q' = HistoryOk r'"
    from history_ok_total [OF ok] t matching_extends [OF e, of D d]
    show "pg_total (hk_pagination r') \<le> pg_total (hk_pagination r)" by simp
  qed
  from t dt n m show ?thesis by (intro conjI)
qed

theorem history_total_count_witness:
  "\<exists>r r'. sms_history_get demo_driver history_db first_page = HistoryOk r \<and>
          sms_history_get demo_driver history_db failed_page_2 = HistoryOk r' \<and>
          extends (q_filters first_page) (q_filters failed_page_2) \<and>
          pg_total (hk_pagination r) = 3 \<and>
          pg_total (hk_pagination r') \<le> pg_total (hk_pagination r)"
proof -
  from first_page_ok obtain r where
    r: "sms_history_get demo_driver history_db first_page = HistoryOk r" ..
  from failed_page_2_ok obtain r' where
    r': "sms_history_get demo_driver history_db failed_page_2 = HistoryOk r'" ..
  have e: "extends (q_filters first_page) (q_filters failed_page_2)"
    by (simp add: extends_def all_kinds_def first_page_def failed_page_2_def no_filters_def
          supplied_def)
  have n: "supplied_kinds (q_filters first_page) = []"
    by (simp add: first_page_def no_filters_def supplied_kinds_def supplied_def)
  have k: "distinct (map dm_id (device_models history_db))"
    by (simp add: history_db_def)
  have l: "length (sms_history history_db) = 3"
    by (simp add: history_db_def)
  from history_total_count [OF r]
  have a: "supplied_kinds (q_filters first_page) = [] \<and>
           distinct (map dm_id (device_models history_db)) \<longrightarrow>
             pg_total (hk_pagination r) = length (sms_history history_db)"
    and b: "\<forall>q' r'. extends (q_filters first_page) (q_filters q') \<and>
                  sms_history_get demo_driver history_db q' = HistoryOk r' \<longrightarrow>
                  pg_total (hk_pagination r') \<le> pg_total (hk_pagination r)"
    by blast+
  from a n k l have t: "pg_total (hk_pagination r) = 3" by simp
  from b e r' have m: "pg_total (hk_pagination r') \<le> pg_total (hk_pagination r)" by blast
  from r r' e t m show ?thesis by blast
qed

text \<open>
  C8. For every history request answered with 200, with page \<open>p\<close> and limit
  \<open>l\<close> (1 and 50 when absent): the response has at most \<open>l\<close> rows, every row
  satisfies every supplied filter (with \<open>status=failed\<close>, every row has the status
  \<open>failed\<close>), the rows are in descending order of \<open>sent_at\<close>,
  \<open>hasPrev = (p > 1)\<close>, \<open>hasNext = (p * l < total)\<close>, and
  \<open>pages = ceiling (total / l)\<close> when \<open>l\<close> is not 0.
\<close>

theorem history_page:
  assumes "sms_history_get D d q = HistoryOk r"
  shows "length (hk_data r) \<le> nat (limit_of q) \<and>
         list_all (item_passes D (q_filters q)) (hk_data r) \<and>
         (\<forall>s. f_status (q_filters q) = Some (QStr s) \<and> s \<noteq> [] \<longrightarrow>
              list_all (\<lambda>it. h_status (hi_row it) = Some s) (hk_data r)) \<and>
         sorted_wrt (\<lambda>a b. h_sent_at (hi_row a) \<ge> h_sent_at (hi_row b)) (hk_data r) \<and>
         pg_page (hk_pagination r) = page_of q \<and>
         pg_limit (hk_pagination r) = limit_of q \<and>
         (q_page q = None \<longrightarrow> pg_page (hk_pagination r) = 1) \<and>
         (q_limit q = None \<longrightarrow> pg_limit (hk_pagination r) = 50) \<and>
         hasPrev (hk_pagination r) = (page_of q > 1) \<and>
         hasNext (hk_pagination r) =
           (page_of q * limit_of q < int (pg_total (hk_pagination r))) \<and>
         (limit_of q \<noteq> 0 \<longrightarrow>
            pg_pages (hk_pagination r) =
              Some \<lceil>rat_of_int (int (pg_total (hk_pagination r))) / rat_of_int (limit_of q)\<rceil>)"
proof -
  let ?rows = "map item_of
                 (take (nat (limit_of q))
                    (drop (nat ((page_of q - 1) * limit_of q))
                       (sort_key (\<lambda>x. - h_sent_at (fst x)) (matching D d (q_filters q)))))"
  from assms have r: "r =
      \<lparr> hk_data = ?rows,
        hk_pagination =
          \<lparr> pg_page = page_of q,
            pg_limit = limit_of q,
            pg_total = length (matching D d (q_filters q)),
            pg_pages =
              (if limit_of q = 0 then None
               else Some \<lceil>rat_of_int (int (length (matching D d (q_filters q)))) /
                          rat_of_int (limit_of q)\<rceil>),
            hasNext = (page_of q * limit_of q < int (length (matching D d (q_filters q)))),
            hasPrev = (page_of q > 1) \<rparr>,
        hk_filters = q_filters q \<rparr>"
    by (simp add: sms_history_get_eq split: if_splits)
  have d: "hk_data r = ?rows" by (subst r) simp
  have 1: "length (hk_data r) \<le> nat (limit_of q)" by (simp add: d)
  have 2: "list_all (item_passes D (q_filters q)) (hk_data r)"
    unfolding d by (rule history_data_passes_aux)
  have 3: "\<forall>s. f_status (q_filters q) = Some (QStr s) \<and> s \<noteq> [] \<longrightarrow>
              list_all (\<lambda>it. h_status (hi_row it) = Some s) (hk_data r)"
    using 2 by (auto simp: list_all_iff intro: item_passes_status)
  have 4: "sorted_wrt (\<lambda>a b. h_sent_at (hi_row a) \<ge> h_sent_at (hi_row b)) (hk_data r)"
    unfolding d by (rule history_data_sorted_aux)
  have 5: "pg_page (hk_pagination r) = page_of q" "pg_limit (hk_pagination r) = limit_of q"
    "hasPrev (hk_pagination r) = (page_of q > 1)"
    "hasNext (hk_pagination r) = (page_of q * limit_of q < int (pg_total (hk_pagination r)))"
    "limit_of q \<noteq> 0 \<longrightarrow>
            pg_pages (hk_pagination r) =
              Some \<lceil>rat_of_int (int (pg_total (hk_pagination r))) / rat_of_int (limit_of q)\<rceil>"
    by (subst r, simp)+
  have 6: "q_page q = None \<longrightarrow> pg_page (hk_pagination r) = 1"
    "q_limit q = None \<longrightarrow> pg_limit (hk_pagination r) = 50"
    by (simp_all add: 5 page_of_def limit_of_def)
  from 1 2 3 4 5 6 show ?thesis by (intro conjI)
qed

theorem history_page_witness:
  "\<exists>r. sms_history_get demo_driver history_db failed_page_2 = HistoryOk r \<and>
       length (hk_data r) \<le> 1 \<and>
       list_all (\<lambda>it. h_status (hi_row it) = Some (js ''failed'')) (hk_data r) \<and>
       hasPrev (hk_pagination r) \<and>
       \<not> hasNext (hk_pagination r) \<and>
       pg_pages (hk_pagination r) = Some 2"
proof -
  from failed_page_2_ok obtain r where
    r: "sms_history_get demo_driver history_db failed_page_2 = HistoryOk r" ..
  have p: "page_of failed_page_2 = 2" "limit_of failed_page_2 = 1"
    by (simp_all add: page_of_def limit_of_def failed_page_2_def)
  have s: "f_status (q_filters failed_page_2) = Some (QStr (js ''failed''))"
    "js ''failed'' \<noteq> []"
    by (simp_all add: failed_page_2_def no_filters_def js_def)
  have t: "pg_total (hk_pagination r) = 2"
    using history_ok_total [OF r] failed_total by simp
  from history_page [OF r]
  have 1: "length (hk_data r) \<le> nat (limit_of failed_page_2)"
    and 2: "\<forall>s. f_status (q_filters failed_page_2) = Some (QStr s) \<and> s \<noteq> [] \<longrightarrow>
              list_all (\<lambda>it. h_status (hi_row it) = Some s) (hk_data r)"
    and 3: "hasPrev (hk_pagination r) = (page_of failed_page_2 > 1)"
    and 4: "hasNext (hk_pagination r) =
           (page_of failed_page_2 * limit_of failed_page_2 < int (pg_total (hk_pagination r)))"
    and 5: "limit_of failed_page_2 \<noteq> 0 \<longrightarrow>
            pg_pages (hk_pagination r) =
              Some \<lceil>rat_of_int (int (pg_total (hk_pagination r))) /
                      rat_of_int (limit_of failed_page_2)\<rceil>"
    by blast+
  from 1 p have a: "length (hk_data r) \<le> 1" by simp
  from 2 s have b: "list_all (\<lambda>it. h_status (hi_row it) = Some (js ''failed'')) (hk_data r)"
    by blast
  from 3 p have c: "hasPrev (hk_pagination r)" by simp
  from 4 p t have d: "\<not> hasNext (hk_pagination r)" by simp
  from 5 p t have e: "pg_pages (hk_pagination r) = Some 2" by simp
  from r a b c d e show ?thesis by blast
qed

end
